theory Spec2Isabelle
  imports Main "HOL-Library.Word"
begin

section \<open>The deploy command of openfx-cli (cmd/function/deploy.go)\<close>

text \<open>
  The command pushes the image of every function of the loaded configuration and submits
  one deployment request per function. The embedding follows deploy.go function by
  function. Everything the file calls in other packages (the docker subprocess, the file
  system, the YAML decoder, the gRPC client, the configuration loader) is a field of the
  record \<open>extern\<close>; every call that reaches the outside, and every line that is
  printed, is recorded as an \<open>event\<close>, in the order in which the code performs it.
\<close>

subsection \<open>Errors\<close>

text \<open>A Go \<open>error\<close> value, identified by the text its \<open>Error()\<close> method returns.\<close>

datatype error = Error string

definition errors_New :: "string \<Rightarrow> error" where
  "errors_New text = Error text"

fun err_Error :: "error \<Rightarrow> string" where
  "err_Error (Error text) = text"

subsection \<open>Records of the configuration and of the gRPC request\<close>

text \<open>
  \<open>config.Function\<close>. Only the fields deploy.go reads are listed. The types of
  \<open>Constraints\<close> and of \<open>Limits\<close>/\<open>Requests\<close> are declared outside deploy.go and are
  copied without inspection, so they are type parameters. \<open>Labels\<close> is a pointer to a
  map: \<open>None\<close> is the nil pointer.
\<close>

record ('c, 'r) Function =
  Name :: string
  Image :: string
  Environment :: "string \<rightharpoonup> string"
  EnvironmentFile :: "string list"
  Labels :: "(string \<rightharpoonup> string) option"
  Maintainer :: string
  Description :: string
  Constraints :: 'c
  Secrets :: "string list"
  Limits :: 'r
  Requests :: 'r
  RegistryURL :: string

text \<open>\<open>config.EnvironmentFile\<close>: the decoded contents of one environment file.\<close>

record EnvFile =
  Environment :: "string \<rightharpoonup> string"

text \<open>
  The loaded configuration \<open>fxServices\<close>: the mapping from function names to functions
  (a Go map) and \<open>Openfx.FxGatewayURL\<close>.
\<close>

record ('c, 'r) Services =
  Functions :: "string \<rightharpoonup> ('c, 'r) Function"
  Openfx_FxGatewayURL :: string

text \<open>\<open>grpc.DeployConfig\<close>, with the fields in the order of the struct literal in \<open>deploy\<close>.\<close>

record ('c, 'r) DeployConfig =
  FxGateway :: string
  FunctionName :: string
  Image :: string
  EnvVars :: "string \<rightharpoonup> string"
  Labels :: "string \<rightharpoonup> string"
  Annotations :: "string \<rightharpoonup> string"
  Constraints :: 'c
  Secrets :: "string list"
  Limits :: 'r
  Requests :: 'r
  MinReplicas :: "32 word"
  MaxReplicas :: "32 word"
  Update :: bool
  Replace :: bool

text \<open>
  The package-level variables of deploy.go (\<open>replace\<close> to \<open>maxreplicas\<close>) and the ones
  it shares with the rest of the package (\<open>token\<close>, \<open>configFile\<close>, \<open>gateway\<close>,
  \<open>fxServices\<close>).
\<close>

record ('c, 'r) globals =
  replace :: bool
  update :: bool
  deployVerbose :: bool
  registry :: string
  minreplicas :: "32 word"
  maxreplicas :: "32 word"
  token :: string
  configFile :: string
  gateway :: string
  fxServices :: "('c, 'r) Services"

subsection \<open>The outside world\<close>

text \<open>
  What the calls into other packages return.
  \<^item> \<open>parseConfigFile\<close> (same package, another file) loads the file named by \<open>configFile\<close>
    into \<open>fxServices\<close> or fails;
  \<^item> \<open>GetFxGatewayURL\<close> is \<open>config.GetFxGatewayURL\<close>;
  \<^item> \<open>ExecCommandPipe\<close> and \<open>ExecCommand\<close> are the two subprocess runners of package
    \<open>builder\<close>, applied to the working directory and the argument vector; the second
    one also returns a value that deploy.go discards;
  \<^item> \<open>ReadFile\<close> is \<open>ioutil.ReadFile\<close>, \<open>Unmarshal\<close> is \<open>yaml.Unmarshal\<close> into a
    \<open>config.EnvironmentFile\<close>;
  \<^item> \<open>Deploy\<close> is \<open>grpc.Deploy\<close>, applied to the request and the access token.
\<close>

record ('c, 'r) extern =
  parseConfigFile :: "string \<Rightarrow> error + ('c, 'r) Services"
  GetFxGatewayURL :: "string \<Rightarrow> string \<Rightarrow> string"
  ExecCommandPipe :: "string \<Rightarrow> string list \<Rightarrow> error option"
  ExecCommand :: "string \<Rightarrow> string list \<Rightarrow> string \<times> error option"
  ReadFile :: "string \<Rightarrow> error + string"
  Unmarshal :: "string \<Rightarrow> error + EnvFile"
  Deploy :: "('c, 'r) DeployConfig \<Rightarrow> string \<Rightarrow> error option"

text \<open>
  The observable actions. \<open>Log_Info\<close> carries the format string and the arguments of a
  call of \<open>log.Info\<close>; \<open>Println\<close> is \<open>fmt.Println\<close>.
\<close>

datatype ('c, 'r) event =
    Log_Info string "string list"
  | Exec_CommandPipe string "string list"
  | Exec_Command string "string list"
  | Read_File string
  | Grpc_Deploy "('c, 'r) DeployConfig" string
  | Println string

text \<open>The deployment requests that a sequence of events submits, in order.\<close>

fun requests :: "('c, 'r) event list \<Rightarrow> ('c, 'r) DeployConfig list" where
  "requests [] = []"
| "requests (Grpc_Deploy cfg tok # evs) = cfg # requests evs"
| "requests (ev # evs) = requests evs"

text \<open>The argument vectors of the subprocesses that a sequence of events starts.\<close>

fun pushes :: "('c, 'r) event list \<Rightarrow> string list list" where
  "pushes [] = []"
| "pushes (Exec_CommandPipe dir argv # evs) = argv # pushes evs"
| "pushes (Exec_Command dir argv # evs) = argv # pushes evs"
| "pushes (ev # evs) = pushes evs"

subsection \<open>mergeMap and readFiles\<close>

text \<open>
  \<open>mergeMap\<close> starts from an empty map, stores every entry of \<open>i\<close> and then every
  entry of \<open>j\<close>. Keys are unique within a map, so the order in which \<open>range\<close> yields
  the entries of one map does not matter: storing all of them is \<open>++\<close>.
\<close>

definition mergeMap :: "(string \<rightharpoonup> string) \<Rightarrow> (string \<rightharpoonup> string) \<Rightarrow> (string \<rightharpoonup> string)" where
  "mergeMap i j = (Map.empty ++ i) ++ j"

text \<open>
  The loop of \<open>readFiles\<close> over the remaining files, with the map \<open>envs\<close> built so
  far. A failing \<open>ioutil.ReadFile\<close> or \<open>yaml.Unmarshal\<close> returns its error at once.
\<close>

fun readFiles_loop ::
  "('c, 'r) extern \<Rightarrow> (string \<rightharpoonup> string) \<Rightarrow> string list
     \<Rightarrow> (error + (string \<rightharpoonup> string)) \<times> ('c, 'r) event list" where
  "readFiles_loop x envs [] = (Inr envs, [])"
| "readFiles_loop x envs (file # files) =
     (case ReadFile x file of
        Inl readErr \<Rightarrow> (Inl readErr, [Read_File file])
      | Inr bytesOut \<Rightarrow>
          (case Unmarshal x bytesOut of
             Inl unmarshalErr \<Rightarrow> (Inl unmarshalErr, [Read_File file])
           | Inr envFile \<Rightarrow>
               (case readFiles_loop x (envs ++ EnvFile.Environment envFile) files of
                  (res, evs) \<Rightarrow> (res, Read_File file # evs))))"

definition readFiles ::
  "('c, 'r) extern \<Rightarrow> string list
     \<Rightarrow> (error + (string \<rightharpoonup> string)) \<times> ('c, 'r) event list" where
  "readFiles x files = readFiles_loop x Map.empty files"

subsection \<open>deploy\<close>

definition AnnoMap :: "('c, 'r) Function \<Rightarrow> (string \<rightharpoonup> string)" where
  "AnnoMap function =
     (let m0 = Map.empty;
          m1 = (if Maintainer function \<noteq> '''' then m0(''maintainer'' \<mapsto> Maintainer function)
                else m0);
          m2 = (if Description function \<noteq> '''' then m1(''desc'' \<mapsto> Description function)
                else m1)
      in m2)"

definition labelMap :: "('c, 'r) Function \<Rightarrow> (string \<rightharpoonup> string)" where
  "labelMap function =
     (case Function.Labels function of None \<Rightarrow> Map.empty | Some labels \<Rightarrow> labels)"

text \<open>The struct literal \<open>grpc.DeployConfig{...}\<close> of \<open>deploy\<close>.\<close>

definition deployConfig ::
  "string \<Rightarrow> ('c, 'r) Function \<Rightarrow> (string \<rightharpoonup> string) \<Rightarrow> bool \<Rightarrow> bool
     \<Rightarrow> 32 word \<Rightarrow> 32 word \<Rightarrow> ('c, 'r) DeployConfig" where
  "deployConfig gw function allEnvironment upd rep minr maxr =
     \<lparr> FxGateway = gw,
       FunctionName = Name function,
       Image = Function.Image function,
       EnvVars = allEnvironment,
       Labels = labelMap function,
       Annotations = AnnoMap function,
       Constraints = Function.Constraints function,
       Secrets = Function.Secrets function @ [''regcred''],
       Limits = Function.Limits function,
       Requests = Function.Requests function,
       MinReplicas = minr,
       MaxReplicas = maxr,
       Update = upd,
       Replace = rep \<rparr>"

text \<open>
  \<open>deploy\<close> returns the error (\<open>None\<close> is \<open>nil\<close>) and the events it performed. The
  parameters \<open>upd\<close>, \<open>rep\<close>, \<open>minr\<close>, \<open>maxr\<close>, \<open>tok\<close> are the parameters
  \<open>update\<close>, \<open>replace\<close>, \<open>minreplicas\<close>, \<open>maxreplicas\<close>, \<open>token\<close> of the source, which
  shadow the package-level variables of the same names.
\<close>

definition deploy ::
  "('c, 'r) extern \<Rightarrow> string \<Rightarrow> ('c, 'r) Function \<Rightarrow> bool \<Rightarrow> bool \<Rightarrow> 32 word \<Rightarrow> 32 word
     \<Rightarrow> string \<Rightarrow> error option \<times> ('c, 'r) event list" where
  "deploy x gw function upd rep minr maxr tok =
     (case readFiles x (EnvironmentFile function) of
        (Inl err, evs) \<Rightarrow> (Some err, evs)
      | (Inr fileEnvironment, evs) \<Rightarrow>
          (let allEnvironment = mergeMap (Function.Environment function) fileEnvironment;
               cfg = deployConfig gw function allEnvironment upd rep minr maxr
           in (Deploy x cfg tok, evs @ [Grpc_Deploy cfg tok])))"

subsection \<open>runDeploy\<close>

definition fmt_pushing :: string where
  "fmt_pushing = ''Pushing: %s, Image: %s in Registry: %s ...'' @ [CHR 0x0A]"

definition fmt_deploying :: string where
  "fmt_deploying = ''Deploying: %s ...'' @ [CHR 0x0A]"

definition fmt_url :: string where
  "fmt_url = ''http trigger url: http://%s/function/%s '' @ [CHR 0x0A]"

text \<open>
  One iteration of the loop of \<open>runDeploy\<close>, for the key \<open>name\<close> and the value
  \<open>function0\<close> that \<open>range\<close> yields. The loop variable is a copy of the map's value;
  the first statement stores the key in its \<open>Name\<close>.
\<close>

definition runDeploy_iter ::
  "('c, 'r) extern \<Rightarrow> ('c, 'r) globals \<Rightarrow> string \<Rightarrow> ('c, 'r) Function
     \<Rightarrow> error option \<times> ('c, 'r) event list" where
  "runDeploy_iter x g name function0 =
     (let function = function0\<lparr>Name := name\<rparr>;
          argv = [''docker'', ''push'', Function.Image function];
          ev1 = Log_Info fmt_pushing
                  [Name function, Function.Image function, RegistryURL function];
          (pushErr, ev2) =
            (if deployVerbose g
             then (ExecCommandPipe x ''./'' argv, Exec_CommandPipe ''./'' argv)
             else (snd (ExecCommand x ''./'' argv), Exec_Command ''./'' argv))
      in case pushErr of
           Some err \<Rightarrow> (Some err, [ev1, ev2])
         | None \<Rightarrow>
             (let ev3 = Log_Info fmt_deploying [Name function]
              in case deploy x (gateway g) function (update g) (replace g)
                        (minreplicas g) (maxreplicas g) (token g) of
                   (Some err, evs) \<Rightarrow> (Some err, [ev1, ev2, ev3] @ evs)
                 | (None, evs) \<Rightarrow>
                     (None, [ev1, ev2, ev3] @ evs
                              @ [Log_Info fmt_url [gateway g, Name function]])))"

text \<open>
  The \<open>for ... range fxServices.Functions\<close> loop. Go does not fix the order in which
  \<open>range\<close> yields the keys of a map; the order of one execution is the parameter
  \<open>order\<close>, and \<open>range_order\<close> says which lists \<open>range\<close> can yield: every key of
  the map, once. (A name outside the map starts no iteration; \<open>range\<close> yields none.)
\<close>

definition range_order :: "('k \<rightharpoonup> 'v) \<Rightarrow> 'k list \<Rightarrow> bool" where
  "range_order m order = (distinct order \<and> set order = dom m)"

fun runDeploy_loop ::
  "('c, 'r) extern \<Rightarrow> ('c, 'r) globals \<Rightarrow> string list
     \<Rightarrow> error option \<times> ('c, 'r) event list" where
  "runDeploy_loop x g [] = (None, [])"
| "runDeploy_loop x g (name # names) =
     (case Functions (fxServices g) name of
        None \<Rightarrow> runDeploy_loop x g names
      | Some function \<Rightarrow>
          (case runDeploy_iter x g name function of
             (Some err, evs) \<Rightarrow> (Some err, evs)
           | (None, evs) \<Rightarrow>
               (case runDeploy_loop x g names of
                  (res, evs') \<Rightarrow> (res, evs @ evs'))))"

definition runDeploy ::
  "('c, 'r) extern \<Rightarrow> ('c, 'r) globals \<Rightarrow> string list
     \<Rightarrow> error option \<times> ('c, 'r) event list" where
  "runDeploy x g order =
     (if card (dom (Functions (fxServices g))) \<le> 0
      then (Some (errors_New ''''), [])
      else runDeploy_loop x g order)"

subsection \<open>preRunDeploy and the command\<close>

definition msg_update_replace :: string where
  "msg_update_replace =
     ''one of '' @ [CHR 0x22] @ ''--update'' @ [CHR 0x22] @ '' flag or '' @ [CHR 0x22]
       @ ''--replace'' @ [CHR 0x22] @ '' flag must be false'' @ [CHR 0x5C, CHR ''n'']"

definition msg_no_config :: string where
  "msg_no_config =
     ''please provide a '' @ [CHR 0x27] @ ''-f'' @ [CHR 0x27]
       @ '' flag for function creation'' @ [CHR 0x0A]"

text \<open>
  \<open>preRunDeploy\<close> returns an error or the package-level variables as it leaves them.
\<close>

definition preRunDeploy ::
  "('c, 'r) extern \<Rightarrow> ('c, 'r) globals \<Rightarrow> error + ('c, 'r) globals" where
  "preRunDeploy x g =
     (if update g \<and> replace g then Inl (errors_New msg_update_replace)
      else if configFile g = '''' then Inl (errors_New msg_no_config)
      else (case parseConfigFile x (configFile g) of
              Inl err \<Rightarrow> Inl err
            | Inr services \<Rightarrow>
                (let configURL = Openfx_FxGatewayURL services
                 in Inr (g\<lparr>fxServices := services,
                           gateway := GetFxGatewayURL x (gateway g) configURL\<rparr>))))"

text \<open>The \<open>Run\<close> function of \<open>deployCmd\<close>: it returns nothing.\<close>

definition deployCmd_Run ::
  "('c, 'r) extern \<Rightarrow> ('c, 'r) globals \<Rightarrow> string list \<Rightarrow> ('c, 'r) event list" where
  "deployCmd_Run x g order =
     (case runDeploy x g order of
        (Some err, evs) \<Rightarrow> evs @ [Println (err_Error err)]
      | (None, evs) \<Rightarrow> evs)"

text \<open>
  Executing \<open>deployCmd\<close>. The command declares \<open>PreRunE: preRunDeploy\<close> and a \<open>Run\<close>
  function. The cobra library calls \<open>PreRunE\<close> first and returns its error to the caller
  without calling \<open>Run\<close>; otherwise it calls \<open>Run\<close>, whose type has no result, and
  returns \<open>nil\<close>.
\<close>

definition deployCmd_execute ::
  "('c, 'r) extern \<Rightarrow> ('c, 'r) globals \<Rightarrow> string list
     \<Rightarrow> error option \<times> ('c, 'r) event list" where
  "deployCmd_execute x g order =
     (case preRunDeploy x g of
        Inl err \<Rightarrow> (Some err, [])
      | Inr g' \<Rightarrow> (None, deployCmd_Run x g' order))"

text \<open>
  The exit status of the process is chosen by the program's entry point, which is not
  part of deploy.go, from what executing the command returns to it; \<open>exit_of\<close> is that
  choice.
\<close>

definition exit_status ::
  "(error option \<Rightarrow> nat) \<Rightarrow> ('c, 'r) extern \<Rightarrow> ('c, 'r) globals \<Rightarrow> string list \<Rightarrow> nat" where
  "exit_status exit_of x g order = exit_of (fst (deployCmd_execute x g order))"

section \<open>Notions used to state the properties\<close>

text \<open>
  What one pass of the loop of \<open>readFiles\<close> obtains from a file: the error of
  \<open>ioutil.ReadFile\<close>, else the error of \<open>yaml.Unmarshal\<close>, else the decoded mapping.
\<close>

definition load :: "('c, 'r) extern \<Rightarrow> string \<Rightarrow> error + (string \<rightharpoonup> string)" where
  "load x file =
     (case ReadFile x file of
        Inl readErr \<Rightarrow> Inl readErr
      | Inr bytesOut \<Rightarrow>
          (case Unmarshal x bytesOut of
             Inl unmarshalErr \<Rightarrow> Inl unmarshalErr
           | Inr envFile \<Rightarrow> Inr (EnvFile.Environment envFile)))"

text \<open>The value a file gives to a key, if the file loads and declares the key.\<close>

definition file_value :: "('c, 'r) extern \<Rightarrow> string \<Rightarrow> string \<Rightarrow> string option" where
  "file_value x file K = (case load x file of Inl err \<Rightarrow> None | Inr m \<Rightarrow> m K)"

text \<open>
  The error and the events of the iteration that the loop of \<open>runDeploy\<close> performs for
  a key of \<open>fxServices.Functions\<close>.
\<close>

definition iter_error :: "('c, 'r) extern \<Rightarrow> ('c, 'r) globals \<Rightarrow> string \<Rightarrow> error option" where
  "iter_error x g name =
     (case Functions (fxServices g) name of
        None \<Rightarrow> None
      | Some function \<Rightarrow> fst (runDeploy_iter x g name function))"

definition iter_events ::
  "('c, 'r) extern \<Rightarrow> ('c, 'r) globals \<Rightarrow> string \<Rightarrow> ('c, 'r) event list" where
  "iter_events x g name =
     (case Functions (fxServices g) name of
        None \<Rightarrow> []
      | Some function \<Rightarrow> snd (runDeploy_iter x g name function))"

text \<open>
  What the push of a function's image answers: the answer of the subprocess runner that
  \<open>deployVerbose\<close> selects, for \<open>docker push\<close> of the image.
\<close>

definition push_error ::
  "('c, 'r) extern \<Rightarrow> ('c, 'r) globals \<Rightarrow> ('c, 'r) Function \<Rightarrow> error option" where
  "push_error x g function =
     (if deployVerbose g
      then ExecCommandPipe x ''./'' [''docker'', ''push'', Function.Image function]
      else snd (ExecCommand x ''./'' [''docker'', ''push'', Function.Image function]))"

text \<open>
  What \<open>grpc.Deploy\<close> answers to the request for the function stored under the key
  \<open>name\<close>, when its environment files have given \<open>fileEnvironment\<close>.
\<close>

definition remote_error ::
  "('c, 'r) extern \<Rightarrow> ('c, 'r) globals \<Rightarrow> string \<Rightarrow> ('c, 'r) Function
     \<Rightarrow> (string \<rightharpoonup> string) \<Rightarrow> error option" where
  "remote_error x g name function fileEnvironment =
     Deploy x
       (deployConfig (gateway g) (function\<lparr>Name := name\<rparr>)
          (mergeMap (Function.Environment function) fileEnvironment)
          (update g) (replace g) (minreplicas g) (maxreplicas g))
       (token g)"

text \<open>
  The outside world lets the function stored under the key \<open>k\<close> be deployed: the push
  of its image succeeds, its environment files load, and \<open>grpc.Deploy\<close> accepts its
  request.
\<close>

definition deployable :: "('c, 'r) extern \<Rightarrow> ('c, 'r) globals \<Rightarrow> string \<Rightarrow> bool" where
  "deployable x g k =
     (case Functions (fxServices g) k of
        None \<Rightarrow> False
      | Some function \<Rightarrow>
          push_error x g function = None
          \<and> (case fst (readFiles x (EnvironmentFile function)) of
               Inl mergeErr \<Rightarrow> False
             | Inr fileEnvironment \<Rightarrow>
                 remote_error x g k function fileEnvironment = None))"

text \<open>
  The argument vector of the push, and the arguments of the progress line before the
  push, for the function stored under the key \<open>k\<close>.
\<close>

definition push_argv :: "('c, 'r) globals \<Rightarrow> string \<Rightarrow> string list" where
  "push_argv g k =
     (case Functions (fxServices g) k of
        None \<Rightarrow> []
      | Some function \<Rightarrow> [''docker'', ''push'', Function.Image function])"

definition pushing_args :: "('c, 'r) globals \<Rightarrow> string \<Rightarrow> string list" where
  "pushing_args g k =
     (case Functions (fxServices g) k of
        None \<Rightarrow> []
      | Some function \<Rightarrow> [k, Function.Image function, RegistryURL function])"

text \<open>
  The argument lists of the calls of \<open>log.Info\<close> with the format string \<open>fmt\<close> in a
  sequence of events, in order.
\<close>

fun log_args :: "string \<Rightarrow> ('c, 'r) event list \<Rightarrow> string list list" where
  "log_args fmt [] = []"
| "log_args fmt (Log_Info f args # evs) =
     (if f = fmt then args # log_args fmt evs else log_args fmt evs)"
| "log_args fmt (ev # evs) = log_args fmt evs"

section \<open>A concrete configuration\<close>

text \<open>
  Three functions. \<open>alpha\<close> declares \<open>K\<close> inline and lists two environment files that
  declare \<open>K\<close> as well; its \<open>Name\<close> field holds a name other than its key, and its
  secrets already contain \<open>regcred\<close>. \<open>gamma\<close> lists a file that does not exist.
\<close>

definition fn_alpha :: "(unit, unit) Function" where
  "fn_alpha =
     \<lparr> Name = ''stale'', Image = ''reg/alpha'',
       Environment = [''K'' \<mapsto> ''c'', ''X'' \<mapsto> ''1''],
       EnvironmentFile = [''A.yml'', ''B.yml''], Labels = None,
       Maintainer = ''Alice'', Description = '''', Constraints = (),
       Secrets = [''regcred''], Limits = (), Requests = (), RegistryURL = ''reg'' \<rparr>"

definition fn_beta :: "(unit, unit) Function" where
  "fn_beta =
     \<lparr> Name = '''', Image = ''reg/beta'', Environment = Map.empty,
       EnvironmentFile = [], Labels = None,
       Maintainer = '''', Description = '''', Constraints = (),
       Secrets = [], Limits = (), Requests = (), RegistryURL = ''reg'' \<rparr>"

definition fn_gamma :: "(unit, unit) Function" where
  "fn_gamma =
     \<lparr> Name = ''gamma'', Image = ''reg/gamma'', Environment = Map.empty,
       EnvironmentFile = [''A.yml'', ''missing.yml'', ''B.yml''], Labels = None,
       Maintainer = '''', Description = ''third'', Constraints = (),
       Secrets = [], Limits = (), Requests = (), RegistryURL = ''reg'' \<rparr>"

definition services_two :: "(unit, unit) Services" where
  "services_two =
     \<lparr> Functions = [''alpha'' \<mapsto> fn_alpha, ''beta'' \<mapsto> fn_beta],
       Openfx_FxGatewayURL = ''10.0.0.180:31113'' \<rparr>"

definition services_three :: "(unit, unit) Services" where
  "services_three =
     \<lparr> Functions = [''alpha'' \<mapsto> fn_alpha, ''beta'' \<mapsto> fn_beta, ''gamma'' \<mapsto> fn_gamma],
       Openfx_FxGatewayURL = ''10.0.0.180:31113'' \<rparr>"

text \<open>The package-level variables as the flag defaults and \<open>-f config.yml\<close> set them.\<close>

definition g_flags :: "(unit, unit) globals" where
  "g_flags =
     \<lparr> replace = False, update = True, deployVerbose = False, registry = '''',
       minreplicas = 1, maxreplicas = 1, token = ''tok'', configFile = ''config.yml'',
       gateway = '''',
       fxServices = \<lparr> Functions = Map.empty, Openfx_FxGatewayURL = '''' \<rparr> \<rparr>"

text \<open>The variables after \<open>preRunDeploy\<close> has loaded \<open>services_two\<close>.\<close>

definition g_two :: "(unit, unit) globals" where
  "g_two = g_flags\<lparr>fxServices := services_two, gateway := ''10.0.0.180:31113''\<rparr>"

definition g_three :: "(unit, unit) globals" where
  "g_three = g_flags\<lparr>fxServices := services_three, gateway := ''10.0.0.180:31113''\<rparr>"

text \<open>
  A world in which every push and every submission succeeds; \<open>A.yml\<close> declares
  \<open>K = a\<close>, \<open>B.yml\<close> declares \<open>K = b\<close>, \<open>bad.yml\<close> exists and does not decode, and
  no other file exists.
\<close>

definition x_ok :: "(unit, unit) extern" where
  "x_ok =
     \<lparr> parseConfigFile =
         (\<lambda>path. if path = ''config.yml'' then Inr services_two
                  else Inl (Error ''no such file'')),
       GetFxGatewayURL = (\<lambda>gw url. if gw = '''' then url else gw),
       ExecCommandPipe = (\<lambda>dir argv. None),
       ExecCommand = (\<lambda>dir argv. ('''', None)),
       ReadFile =
         (\<lambda>path. if path = ''A.yml'' then Inr ''A''
                  else if path = ''B.yml'' then Inr ''B''
                  else if path = ''bad.yml'' then Inr ''?''
                  else Inl (Error ''no such file'')),
       Unmarshal =
         (\<lambda>bytes. if bytes = ''A'' then Inr \<lparr> Environment = [''K'' \<mapsto> ''a''] \<rparr>
                   else if bytes = ''B'' then Inr \<lparr> Environment = [''K'' \<mapsto> ''b''] \<rparr>
                   else Inl (Error ''cannot unmarshal'')),
       Deploy = (\<lambda>cfg tok. None) \<rparr>"

text \<open>The same world, except that pushing the image of \<open>alpha\<close> fails.\<close>

definition x_push_fails :: "(unit, unit) extern" where
  "x_push_fails =
     x_ok\<lparr> ExecCommand :=
             (\<lambda>dir argv. if argv = [''docker'', ''push'', ''reg/alpha'']
                          then ('''', Some (Error ''exit status 1''))
                          else ('''', None)) \<rparr>"

text \<open>
  The world \<open>x_ok\<close>, except that \<open>grpc.Deploy\<close> rejects the request named \<open>alpha\<close>.
\<close>

definition x_remote_fails :: "(unit, unit) extern" where
  "x_remote_fails =
     x_ok\<lparr> Deploy :=
             (\<lambda>cfg tok. if FunctionName cfg = ''alpha''
                        then Some (Error ''rpc error'')
                        else None) \<rparr>"

text \<open>The entry point that exits with status 1 exactly when the command returns an error.\<close>

definition exit_on_error :: "error option \<Rightarrow> nat" where
  "exit_on_error res = (case res of None \<Rightarrow> 0 | Some err \<Rightarrow> 1)"

text \<open>
  The configuration \<open>g\<close> with the \<open>Name\<close> field of the function stored under each
  key \<open>k\<close> replaced by \<open>nm k\<close>: the same mapping from keys to functions, with
  other names inside the records.
\<close>

definition with_names ::
  "(string \<Rightarrow> string) \<Rightarrow> ('c, 'r) globals \<Rightarrow> ('c, 'r) globals" where
  "with_names nm g =
     g\<lparr>fxServices := (fxServices g)
         \<lparr>Functions := (\<lambda>k. map_option (\<lambda>f. f\<lparr>Name := nm k\<rparr>)
                                 (Functions (fxServices g) k))\<rparr>\<rparr>"

section \<open>Properties\<close>

subsection \<open>Events\<close>

lemma requests_append: "requests (evs @ evs') = requests evs @ requests evs'"
  by (induction evs rule: requests.induct) simp_all

lemma pushes_append: "pushes (evs @ evs') = pushes evs @ pushes evs'"
  by (induction evs rule: pushes.induct) simp_all

lemma readFiles_loop_requests: "requests (snd (readFiles_loop x envs files)) = []"
  by (induction files arbitrary: envs) (simp_all add: case_prod_beta split: sum.splits)

lemma readFiles_loop_pushes: "pushes (snd (readFiles_loop x envs files)) = []"
  by (induction files arbitrary: envs) (simp_all add: case_prod_beta split: sum.splits)

lemma readFiles_requests: "requests (snd (readFiles x files)) = []"
  by (simp add: readFiles_def readFiles_loop_requests)

lemma readFiles_pushes: "pushes (snd (readFiles x files)) = []"
  by (simp add: readFiles_def readFiles_loop_pushes)

lemma deploy_requests:
  "requests (snd (deploy x gw function upd rep minr maxr tok)) =
     (case fst (readFiles x (EnvironmentFile function)) of
        Inl err \<Rightarrow> []
      | Inr fileEnvironment \<Rightarrow>
          [deployConfig gw function (mergeMap (Function.Environment function) fileEnvironment)
             upd rep minr maxr])"
proof (cases "readFiles x (EnvironmentFile function)")
  case (Pair res evs)
  have "requests evs = []"
    using readFiles_loop_requests [of x Map.empty "EnvironmentFile function"] Pair
    by (simp add: readFiles_def)
  then show ?thesis
    using Pair by (cases res) (simp_all add: deploy_def Let_def requests_append)
qed

subsection \<open>The request\<close>

text \<open>
  C6. The secret list of the request is the function's declared secret list followed by
  the one entry \<open>regcred\<close>: this holds for the struct literal whatever the declared
  list contains, its length is the declared length plus one, and it is the secret list
  of the request that \<open>deploy\<close> submits (it submits one when the environment files
  load, and none otherwise).
\<close>

theorem secrets_regcred_appended:
  "map DeployConfig.Secrets (requests (snd (deploy x gw function upd rep minr maxr tok))) =
     (case fst (readFiles x (EnvironmentFile function)) of
        Inl err \<Rightarrow> []
      | Inr fileEnvironment \<Rightarrow> [Function.Secrets function @ [''regcred'']])
   \<and> DeployConfig.Secrets (deployConfig gw function env upd rep minr maxr) =
       Function.Secrets function @ [''regcred'']
   \<and> length (DeployConfig.Secrets (deployConfig gw function env upd rep minr maxr)) =
       length (Function.Secrets function) + 1"
  by (simp add: deploy_requests deployConfig_def split: sum.splits)

text \<open>
  For \<open>alpha\<close>, whose declared secrets are already \<open>[regcred]\<close>, the request
  carries \<open>regcred\<close> twice.
\<close>

theorem secrets_regcred_appended_witness:
  "map DeployConfig.Secrets
     (requests (snd (deploy x_ok ''gw'' fn_alpha True False 1 1 ''tok''))) =
     [[''regcred'', ''regcred'']]
   \<and> length (DeployConfig.Secrets (deployConfig ''gw'' fn_alpha Map.empty True False 1 1)) = 2"
  using secrets_regcred_appended [of x_ok "''gw''" fn_alpha True False 1 1 "''tok''" Map.empty]
  by (simp add: readFiles_def x_ok_def fn_alpha_def)

text \<open>
  C7. The annotation mapping of the request has the key \<open>maintainer\<close> exactly when the
  function's maintainer string is not empty, the key \<open>desc\<close> exactly when its
  description string is not empty, and no other key; when both strings are empty it is
  the empty mapping. It is the mapping \<open>AnnoMap\<close> of the request that \<open>deploy\<close>
  submits.
\<close>

theorem annotations_maintainer_desc:
  "(''maintainer'' \<in> dom (Annotations (deployConfig gw function env upd rep minr maxr)))
      = (Maintainer function \<noteq> '''')
   \<and> (''desc'' \<in> dom (Annotations (deployConfig gw function env upd rep minr maxr)))
      = (Description function \<noteq> '''')
   \<and> dom (Annotations (deployConfig gw function env upd rep minr maxr))
      \<subseteq> {''maintainer'', ''desc''}
   \<and> (Maintainer function = '''' \<and> Description function = ''''
        \<longrightarrow> Annotations (deployConfig gw function env upd rep minr maxr) = Map.empty)
   \<and> map Annotations (requests (snd (deploy x gw function upd rep minr maxr tok))) =
       (case fst (readFiles x (EnvironmentFile function)) of
          Inl err \<Rightarrow> []
        | Inr fileEnvironment \<Rightarrow> [AnnoMap function])"
  by (simp add: deploy_requests deployConfig_def AnnoMap_def Let_def split: sum.splits)

theorem annotations_maintainer_desc_witness:
  "Maintainer fn_beta = '''' \<and> Description fn_beta = ''''
   \<and> Annotations (deployConfig ''gw'' fn_beta Map.empty True False 1 1) = Map.empty
   \<and> map Annotations (requests (snd (deploy x_ok ''gw'' fn_beta True False 1 1 ''tok'')))
       = [Map.empty]"
  using annotations_maintainer_desc
          [of "''gw''" fn_beta Map.empty True False 1 1 x_ok "''tok''"]
  by (simp add: fn_beta_def readFiles_def AnnoMap_def)

subsection \<open>Environment files\<close>

lemma load_Inl_iff:
  "load x file = Inl err \<longleftrightarrow>
     ReadFile x file = Inl err
     \<or> (\<exists>bytesOut. ReadFile x file = Inr bytesOut \<and> Unmarshal x bytesOut = Inl err)"
  by (auto simp: load_def split: sum.splits)

lemma readFiles_loop_Cons:
  "readFiles_loop x envs (file # files) =
     (case load x file of
        Inl err \<Rightarrow> (Inl err, [Read_File file])
      | Inr m \<Rightarrow> (fst (readFiles_loop x (envs ++ m) files),
                  Read_File file # snd (readFiles_loop x (envs ++ m) files)))"
  by (simp add: load_def case_prod_beta split: sum.splits)

lemma readFiles_loop_first_bad:
  assumes "\<forall>f\<in>set pre. \<not> isl (load x f)" and "load x bad = Inl err"
  shows "readFiles_loop x envs (pre @ bad # post) = (Inl err, map Read_File (pre @ [bad]))"
  using assms
proof (induction pre arbitrary: envs)
  case Nil
  then show ?case by (simp only: readFiles_loop_Cons append_Nil) simp
next
  case (Cons f pre)
  from Cons.prems obtain m where m: "load x f = Inr m"
    by (cases "load x f") auto
  have "readFiles_loop x (envs ++ m) (pre @ bad # post) = (Inl err, map Read_File (pre @ [bad]))"
    using Cons by simp
  then show ?case
    by (simp only: readFiles_loop_Cons append_Cons m) simp
qed

lemma first_bad_split:
  assumes "file \<in> set files" and "isl (load x file)"
  shows "\<exists>pre bad post. files = pre @ bad # post \<and> (\<forall>f\<in>set pre. \<not> isl (load x f))
           \<and> isl (load x bad)"
  using assms split_list_first_prop [of files "\<lambda>f. isl (load x f)"] by blast

text \<open>
  C8. If one of the declared environment files cannot be read, or is read and does not
  decode, then \<open>readFiles\<close> fails: it returns the read error or the decoding error of
  the first such file \<open>bad\<close> of the list, having read the files up to \<open>bad\<close> and
  none after it, and \<open>deploy\<close> returns that error without submitting a request.
\<close>

theorem bad_environment_file_aborts:
  assumes "file \<in> set (EnvironmentFile function)"
      and "ReadFile x file = Inl e
           \<or> (ReadFile x file = Inr bytesOut \<and> Unmarshal x bytesOut = Inl e)"
  shows "\<exists>pre bad post err.
           EnvironmentFile function = pre @ bad # post
           \<and> (\<forall>f\<in>set pre. \<not> isl (load x f))
           \<and> (ReadFile x bad = Inl err
               \<or> (\<exists>bytes. ReadFile x bad = Inr bytes \<and> Unmarshal x bytes = Inl err))
           \<and> readFiles x (EnvironmentFile function) = (Inl err, map Read_File (pre @ [bad]))
           \<and> deploy x gw function upd rep minr maxr tok
               = (Some err, map Read_File (pre @ [bad]))"
proof -
  have "load x file = Inl e"
    using assms(2) by (auto simp: load_Inl_iff)
  then have "isl (load x file)" by simp
  with assms(1) obtain pre bad post where
    sp: "EnvironmentFile function = pre @ bad # post"
    and pre: "\<forall>f\<in>set pre. \<not> isl (load x f)" and bad: "isl (load x bad)"
    using first_bad_split by blast
  from bad obtain err where err: "load x bad = Inl err"
    by (cases "load x bad") auto
  have rf: "readFiles x (EnvironmentFile function) = (Inl err, map Read_File (pre @ [bad]))"
    unfolding readFiles_def sp by (rule readFiles_loop_first_bad [OF pre err])
  have "deploy x gw function upd rep minr maxr tok = (Some err, map Read_File (pre @ [bad]))"
    by (simp add: deploy_def rf)
  with sp pre err rf show ?thesis
    unfolding load_Inl_iff by blast
qed

theorem bad_environment_file_aborts_witness:
  "''missing.yml'' \<in> set (EnvironmentFile fn_gamma)
   \<and> ReadFile x_ok ''missing.yml'' = Inl (Error ''no such file'')
   \<and> deploy x_ok ''gw'' fn_gamma True False 1 1 ''tok''
       = (Some (Error ''no such file''), [Read_File ''A.yml'', Read_File ''missing.yml''])"
  using bad_environment_file_aborts
          [of "''missing.yml''" fn_gamma x_ok "Error ''no such file''" "''''"
              "''gw''" True False 1 1 "''tok''"]
  by (simp add: deploy_def readFiles_def x_ok_def fn_gamma_def)

lemma readFiles_loop_untouched:
  assumes "fst (readFiles_loop x envs files) = Inr fe"
      and "\<forall>f\<in>set files. file_value x f K = None"
  shows "fe K = envs K"
  using assms
proof (induction files arbitrary: envs)
  case Nil
  then show ?case by simp
next
  case (Cons f files)
  show ?case
  proof (cases "load x f")
    case (Inl err)
    with Cons.prems(1) show ?thesis by (simp only: readFiles_loop_Cons) simp
  next
    case (Inr m)
    with Cons.prems(2) have mK: "m K = None" by (simp add: file_value_def)
    from Cons.prems(1) Inr have "fst (readFiles_loop x (envs ++ m) files) = Inr fe"
      by (simp only: readFiles_loop_Cons) simp
    with Cons.IH [of "envs ++ m"] Cons.prems(2) have "fe K = (envs ++ m) K" by simp
    with mK show ?thesis by (simp add: map_add_def)
  qed
qed

lemma readFiles_loop_last_wins:
  assumes "fst (readFiles_loop x envs (pre @ B # post)) = Inr fe"
      and "file_value x B K = Some b"
      and "\<forall>f\<in>set post. file_value x f K = None"
  shows "fe K = Some b"
  using assms
proof (induction pre arbitrary: envs)
  case Nil
  from Nil.prems(2) obtain m where m: "load x B = Inr m" and mK: "m K = Some b"
    by (cases "load x B") (auto simp: file_value_def)
  from Nil.prems(1) m have "fst (readFiles_loop x (envs ++ m) post) = Inr fe"
    by (simp only: readFiles_loop_Cons append_Nil) simp
  then have "fe K = (envs ++ m) K"
    using Nil.prems(3) by (rule readFiles_loop_untouched)
  with mK show ?case by (simp add: map_add_def)
next
  case (Cons f pre)
  show ?case
  proof (cases "load x f")
    case (Inl err)
    with Cons.prems(1) show ?thesis by (simp only: readFiles_loop_Cons append_Cons) simp
  next
    case (Inr m)
    with Cons.prems(1) have "fst (readFiles_loop x (envs ++ m) (pre @ B # post)) = Inr fe"
      by (simp only: readFiles_loop_Cons append_Cons) simp
    with Cons.IH Cons.prems(2,3) show ?thesis by blast
  qed
qed

text \<open>
  C1, as the code has it. When the environment files of a function load, the request
  maps a key \<open>K\<close> to the value that the merged files give it, and to the inline value
  only when no file declares \<open>K\<close>; the merged files give \<open>K\<close> the value of the last
  listed file that declares it. So a file wins over an inline declaration, and a later
  file wins over an earlier one.
\<close>

theorem file_value_wins_over_inline:
  assumes "fst (readFiles x (EnvironmentFile function)) = Inr fileEnvironment"
  shows "map (\<lambda>cfg. EnvVars cfg K)
           (requests (snd (deploy x gw function upd rep minr maxr tok)))
         = [case fileEnvironment K of
              Some v \<Rightarrow> Some v
            | None \<Rightarrow> Function.Environment function K]
       \<and> (EnvironmentFile function = pre @ B # post \<and> file_value x B K = Some b
            \<and> (\<forall>f\<in>set post. file_value x f K = None)
          \<longrightarrow> fileEnvironment K = Some b)"
proof -
  have "map (\<lambda>cfg. EnvVars cfg K)
           (requests (snd (deploy x gw function upd rep minr maxr tok)))
         = [case fileEnvironment K of
              Some v \<Rightarrow> Some v
            | None \<Rightarrow> Function.Environment function K]"
    using assms
    by (simp add: deploy_requests deployConfig_def mergeMap_def map_add_def
             split: option.splits)
  moreover have "fileEnvironment K = Some b"
    if "EnvironmentFile function = pre @ B # post" and "file_value x B K = Some b"
      and "\<forall>f\<in>set post. file_value x f K = None"
    using assms that readFiles_loop_last_wins [of x Map.empty pre B post fileEnvironment K b]
    by (simp add: readFiles_def)
  ultimately show ?thesis by blast
qed

theorem file_value_wins_over_inline_witness:
  "fst (readFiles x_ok (EnvironmentFile fn_alpha)) = Inr [''K'' \<mapsto> ''b'']
   \<and> EnvironmentFile fn_alpha = [''A.yml''] @ ''B.yml'' # []
   \<and> file_value x_ok ''B.yml'' ''K'' = Some ''b''
   \<and> Function.Environment fn_alpha ''K'' = Some ''c''
   \<and> map (\<lambda>cfg. EnvVars cfg ''K'')
        (requests (snd (deploy x_ok ''gw'' fn_alpha True False 1 1 ''tok''))) = [Some ''b'']"
proof -
  have h: "fst (readFiles x_ok (EnvironmentFile fn_alpha)) = Inr [''K'' \<mapsto> ''b'']"
    by (simp add: readFiles_def x_ok_def fn_alpha_def)
  show ?thesis
    using h file_value_wins_over_inline
            [OF h, of "''K''" "''gw''" True False 1 1 "''tok''" "[''A.yml'']" "''B.yml''" "[]" "''b''"]
    by (simp add: file_value_def load_def x_ok_def fn_alpha_def)
qed

text \<open>
  C1 as stated fails: \<open>A.yml\<close> declares \<open>K = a\<close>, \<open>B.yml\<close> declares
  \<open>K = b\<close>, the function declares \<open>K = c\<close> inline, and the request does not map
  \<open>K\<close> to \<open>c\<close>.
\<close>

theorem inline_wins_counterexample:
  "file_value x_ok ''A.yml'' ''K'' = Some ''a''
   \<and> file_value x_ok ''B.yml'' ''K'' = Some ''b''
   \<and> Function.Environment fn_alpha ''K'' = Some ''c''
   \<and> EnvironmentFile fn_alpha = [''A.yml'', ''B.yml'']
   \<and> map (\<lambda>cfg. EnvVars cfg ''K'')
        (requests (snd (deploy x_ok ''gw'' fn_alpha True False 1 1 ''tok''))) \<noteq> [Some ''c'']"
  by (simp add: file_value_def load_def deploy_def readFiles_def deployConfig_def
        mergeMap_def x_ok_def fn_alpha_def)

subsection \<open>One iteration of the loop\<close>

lemma runDeploy_iter_rename:
  "runDeploy_iter x g name (function\<lparr>Name := other\<rparr>) = runDeploy_iter x g name function"
  by (simp add: runDeploy_iter_def)

lemma runDeploy_iter_pushes:
  "pushes (snd (runDeploy_iter x g name function))
     = [[''docker'', ''push'', Function.Image function]]"
  by (simp add: runDeploy_iter_def Let_def case_prod_beta pushes_append deploy_def
        readFiles_pushes
      split: option.splits sum.splits)

lemma runDeploy_iter_hd:
  "hd (snd (runDeploy_iter x g name function))
     = Log_Info fmt_pushing [name, Function.Image function, RegistryURL function]"
  by (simp add: runDeploy_iter_def Let_def case_prod_beta split: option.splits)

lemma runDeploy_iter_names:
  "map FunctionName (requests (snd (runDeploy_iter x g name function)))
     = (if requests (snd (runDeploy_iter x g name function)) = [] then [] else [name])"
  by (simp add: runDeploy_iter_def Let_def case_prod_beta requests_append deploy_requests
        deployConfig_def
      split: option.splits sum.splits)

lemma runDeploy_iter_ok:
  assumes "fst (runDeploy_iter x g name function) = None"
  shows "map FunctionName (requests (snd (runDeploy_iter x g name function))) = [name]
         \<and> last (snd (runDeploy_iter x g name function))
             = Log_Info fmt_url [gateway g, name]"
  using assms
  by (simp add: runDeploy_iter_def Let_def case_prod_beta requests_append deploy_requests
        deployConfig_def deploy_def readFiles_requests
      split: option.splits sum.splits if_splits)

subsection \<open>The loop\<close>

lemma runDeploy_loop_Cons:
  "runDeploy_loop x g (name # names) =
     (case iter_error x g name of
        Some err \<Rightarrow> (Some err, iter_events x g name)
      | None \<Rightarrow> (fst (runDeploy_loop x g names),
                  iter_events x g name @ snd (runDeploy_loop x g names)))"
  by (simp add: iter_error_def iter_events_def case_prod_beta split: option.splits)

lemma runDeploy_loop_all_ok:
  "\<forall>k\<in>set names. iter_error x g k = None \<Longrightarrow>
     runDeploy_loop x g names = (None, concat (map (iter_events x g) names))"
proof (induction names)
  case Nil
  show ?case by simp
next
  case (Cons name names)
  then show ?case by (simp only: runDeploy_loop_Cons) simp
qed

lemma runDeploy_loop_first_failure:
  assumes "\<forall>k\<in>set pre. iter_error x g k = None" and "iter_error x g name = Some err"
  shows "runDeploy_loop x g (pre @ name # post) =
           (Some err, concat (map (iter_events x g) pre) @ iter_events x g name)"
  using assms
proof (induction pre)
  case Nil
  then show ?case by (simp only: runDeploy_loop_Cons append_Nil) simp
next
  case (Cons k pre)
  then show ?case by (simp only: runDeploy_loop_Cons append_Cons) simp
qed

lemma range_order_card:
  "range_order m order \<Longrightarrow> card (dom m) = length order"
  by (metis distinct_card range_order_def)

lemma iter_events_names_ok:
  assumes "\<forall>k\<in>set ks. k \<in> dom (Functions (fxServices g)) \<and> iter_error x g k = None"
  shows "map FunctionName (requests (concat (map (iter_events x g) ks))) = ks"
  using assms
proof (induction ks)
  case Nil
  show ?case by simp
next
  case (Cons k ks)
  from Cons.prems obtain fn where
    f: "Functions (fxServices g) k = Some fn" and ok: "iter_error x g k = None"
    by auto
  from ok f have "fst (runDeploy_iter x g k fn) = None"
    by (simp add: iter_error_def)
  then have "map FunctionName (requests (iter_events x g k)) = [k]"
    using runDeploy_iter_ok [of x g k fn] f by (simp add: iter_events_def)
  with Cons show ?case by (simp add: requests_append)
qed

lemma iter_events_pushes:
  assumes "set ks \<subseteq> dom (Functions (fxServices g))"
  shows "length (pushes (concat (map (iter_events x g) ks))) = length ks"
  using assms
proof (induction ks)
  case Nil
  show ?case by simp
next
  case (Cons k ks)
  from Cons.prems obtain fn where f: "Functions (fxServices g) k = Some fn"
    by auto
  have "pushes (iter_events x g k) = [[''docker'', ''push'', Function.Image fn]]"
    using runDeploy_iter_pushes [of x g k fn] f by (simp add: iter_events_def)
  with Cons show ?case by (simp add: pushes_append)
qed

lemma iter_events_names:
  "map FunctionName (requests (iter_events x g k))
     = (if requests (iter_events x g k) = [] then [] else [k])"
proof (cases "Functions (fxServices g) k")
  case None
  then show ?thesis by (simp add: iter_events_def)
next
  case (Some fn)
  then show ?thesis
    using runDeploy_iter_names [of x g k fn] by (simp add: iter_events_def)
qed

lemma with_names_fields:
  "deployVerbose (with_names nm g) = deployVerbose g"
  "gateway (with_names nm g) = gateway g"
  "update (with_names nm g) = update g"
  "replace (with_names nm g) = replace g"
  "minreplicas (with_names nm g) = minreplicas g"
  "maxreplicas (with_names nm g) = maxreplicas g"
  "token (with_names nm g) = token g"
  by (simp_all add: with_names_def)

lemma runDeploy_iter_with_names:
  "runDeploy_iter x (with_names nm g) name function = runDeploy_iter x g name function"
  unfolding runDeploy_iter_def with_names_fields ..

lemma Functions_with_names:
  "Functions (fxServices (with_names nm g)) k
     = map_option (\<lambda>f. f\<lparr>Name := nm k\<rparr>) (Functions (fxServices g) k)"
  by (simp add: with_names_def)

lemma iter_with_names:
  "iter_error x (with_names nm g) k = iter_error x g k"
  "iter_events x (with_names nm g) k = iter_events x g k"
  by (cases "Functions (fxServices g) k";
      simp add: iter_error_def iter_events_def Functions_with_names
        runDeploy_iter_with_names runDeploy_iter_rename)+

lemma runDeploy_loop_with_names:
  "runDeploy_loop x (with_names nm g) order = runDeploy_loop x g order"
proof (induction order)
  case Nil
  show ?case by simp
next
  case (Cons name names)
  then show ?case
    by (simp only: runDeploy_loop_Cons iter_with_names)
qed

lemma dom_with_names:
  "dom (Functions (fxServices (with_names nm g))) = dom (Functions (fxServices g))"
  by (auto simp: with_names_def dom_def)

lemma runDeploy_first_failure:
  assumes "range_order (Functions (fxServices g)) (pre @ name # post)"
      and "\<forall>k\<in>set pre. iter_error x g k = None"
      and "iter_error x g name = Some err"
  shows "runDeploy x g (pre @ name # post)
           = (Some err, concat (map (iter_events x g) pre) @ iter_events x g name)
       \<and> length (pushes (snd (runDeploy x g (pre @ name # post)))) = length pre + 1
       \<and> map FunctionName (requests (concat (map (iter_events x g) pre))) = pre
       \<and> map FunctionName (requests (snd (runDeploy x g (pre @ name # post))))
           = pre @ (if requests (iter_events x g name) = [] then [] else [name])"
proof -
  let ?m = "Functions (fxServices g)"
  have card: "card (dom ?m) = length (pre @ name # post)"
    using assms(1) by (rule range_order_card)
  have dom: "set (pre @ name # post) = dom ?m"
    using assms(1) by (simp add: range_order_def)
  have run: "runDeploy x g (pre @ name # post)
           = (Some err, concat (map (iter_events x g) pre) @ iter_events x g name)"
    using card runDeploy_loop_first_failure [OF assms(2,3), of post]
    by (simp add: runDeploy_def)
  have sub: "set (pre @ [name]) \<subseteq> dom ?m"
    using dom by auto
  have "length (pushes (concat (map (iter_events x g) (pre @ [name])))) = length (pre @ [name])"
    using sub by (rule iter_events_pushes)
  then have p: "length (pushes (snd (runDeploy x g (pre @ name # post)))) = length pre + 1"
    by (simp add: run)
  have "\<forall>k\<in>set pre. k \<in> dom ?m \<and> iter_error x g k = None"
    using assms(2) sub by auto
  then have n: "map FunctionName (requests (concat (map (iter_events x g) pre))) = pre"
    by (rule iter_events_names_ok)
  have "map FunctionName (requests (snd (runDeploy x g (pre @ name # post))))
           = pre @ (if requests (iter_events x g name) = [] then [] else [name])"
    using n iter_events_names [of x g name] by (simp add: run requests_append)
  with run p n show ?thesis by blast
qed

lemma runDeploy_iter_fst:
  "fst (runDeploy_iter x g name function) =
     (case push_error x g function of
        Some pushErr \<Rightarrow> Some pushErr
      | None \<Rightarrow>
          (case fst (readFiles x (EnvironmentFile function)) of
             Inl mergeErr \<Rightarrow> Some mergeErr
           | Inr fileEnvironment \<Rightarrow> remote_error x g name function fileEnvironment))"
  by (simp add: runDeploy_iter_def push_error_def remote_error_def deploy_def Let_def
        case_prod_beta
      split: option.splits sum.splits)

lemma runDeploy_iter_requests_empty:
  "(requests (snd (runDeploy_iter x g name function)) = [])
     = (\<not> (push_error x g function = None
            \<and> \<not> isl (fst (readFiles x (EnvironmentFile function)))))"
  by (simp add: runDeploy_iter_def push_error_def Let_def case_prod_beta requests_append
        deploy_requests
      split: option.splits sum.splits)

lemma deployable_iter_error:
  "deployable x g k \<Longrightarrow> iter_error x g k = None"
  by (auto simp: deployable_def iter_error_def runDeploy_iter_fst
           split: option.splits sum.splits)

lemma deployable_dom:
  "deployable x g k \<Longrightarrow> k \<in> dom (Functions (fxServices g))"
  by (auto simp: deployable_def split: option.splits)

lemma failure_iter_error:
  assumes "Functions (fxServices g) name = Some function"
      and "push_error x g function = Some err
           \<or> (push_error x g function = None
               \<and> fst (readFiles x (EnvironmentFile function)) = Inl err)
           \<or> (push_error x g function = None
               \<and> fst (readFiles x (EnvironmentFile function)) = Inr fileEnvironment
               \<and> remote_error x g name function fileEnvironment = Some err)"
  shows "iter_error x g name = Some err"
  using assms by (auto simp: iter_error_def runDeploy_iter_fst)

lemma pushes_concat_iter_events:
  assumes "set ks \<subseteq> dom (Functions (fxServices g))"
  shows "pushes (concat (map (iter_events x g) ks)) = map (push_argv g) ks"
  using assms
proof (induction ks)
  case Nil
  show ?case by simp
next
  case (Cons k ks)
  from Cons.prems obtain fn where f: "Functions (fxServices g) k = Some fn"
    by auto
  have "pushes (iter_events x g k) = [push_argv g k]"
    using runDeploy_iter_pushes [of x g k fn] f by (simp add: iter_events_def push_argv_def)
  with Cons show ?case by (simp add: pushes_append)
qed

text \<open>
  C3. Let \<open>range\<close> yield the keys \<open>pre\<close>, then \<open>name\<close>, then \<open>post\<close>. Let the
  functions of \<open>pre\<close> be deployable, and let the one stored under \<open>name\<close> fail in
  one of the three ways: its push answers the error \<open>err\<close>; or its push succeeds and
  \<open>readFiles\<close> returns \<open>err\<close>; or both succeed and \<open>grpc.Deploy\<close> answers \<open>err\<close>
  to its request. Then the run returns the one error \<open>err\<close>. Its events are those of
  the iterations for \<open>pre\<close>, unchanged, followed by those of the failing iteration:
  the pushes are those of \<open>pre\<close> and \<open>name\<close> and none of \<open>post\<close>, the requests for
  \<open>pre\<close> stay submitted, and the only other request is the one for \<open>name\<close>, when
  the failure came from \<open>grpc.Deploy\<close>.
\<close>

theorem first_failure_aborts_run:
  assumes "range_order (Functions (fxServices g)) (pre @ name # post)"
      and "\<forall>k\<in>set pre. deployable x g k"
      and "Functions (fxServices g) name = Some function"
      and "push_error x g function = Some err
           \<or> (push_error x g function = None
               \<and> fst (readFiles x (EnvironmentFile function)) = Inl err)
           \<or> (push_error x g function = None
               \<and> fst (readFiles x (EnvironmentFile function)) = Inr fileEnvironment
               \<and> remote_error x g name function fileEnvironment = Some err)"
  shows "runDeploy x g (pre @ name # post)
           = (Some err, concat (map (iter_events x g) pre) @ iter_events x g name)
       \<and> pushes (snd (runDeploy x g (pre @ name # post))) = map (push_argv g) (pre @ [name])
       \<and> length (pushes (snd (runDeploy x g (pre @ name # post)))) = length pre + 1
       \<and> map FunctionName (requests (concat (map (iter_events x g) pre))) = pre
       \<and> map FunctionName (requests (snd (runDeploy x g (pre @ name # post))))
           = pre @ (if push_error x g function = None
                       \<and> \<not> isl (fst (readFiles x (EnvironmentFile function)))
                    then [name] else [])"
proof -
  have ok: "\<forall>k\<in>set pre. iter_error x g k = None"
    using assms(2) by (simp add: deployable_iter_error)
  have bad: "iter_error x g name = Some err"
    using assms(3,4) by (rule failure_iter_error)
  note t = runDeploy_first_failure [OF assms(1) ok bad]
  have run: "runDeploy x g (pre @ name # post)
           = (Some err, concat (map (iter_events x g) pre) @ iter_events x g name)"
    using t by blast
  have "set (pre @ [name]) \<subseteq> dom (Functions (fxServices g))"
    using assms(1) by (auto simp: range_order_def)
  then have "pushes (concat (map (iter_events x g) (pre @ [name])))
               = map (push_argv g) (pre @ [name])"
    by (rule pushes_concat_iter_events)
  then have p: "pushes (snd (runDeploy x g (pre @ name # post)))
               = map (push_argv g) (pre @ [name])"
    by (simp add: run)
  have e: "(requests (iter_events x g name) = [])
            = (\<not> (push_error x g function = None
                   \<and> \<not> isl (fst (readFiles x (EnvironmentFile function)))))"
    using assms(3) runDeploy_iter_requests_empty [of x g name "function"]
    by (simp add: iter_events_def)
  have n: "map FunctionName (requests (snd (runDeploy x g (pre @ name # post))))
           = pre @ (if push_error x g function = None
                       \<and> \<not> isl (fst (readFiles x (EnvironmentFile function)))
                    then [name] else [])"
    using t [THEN conjunct2, THEN conjunct2, THEN conjunct2] e by auto
  from run p n t show ?thesis by blast
qed

lemma range_order_three:
  "range_order (Functions (fxServices g_three)) ([''beta''] @ ''alpha'' # [''gamma''])"
  "range_order (Functions (fxServices g_three)) ([''beta'', ''alpha''] @ ''gamma'' # [])"
  by (auto simp: range_order_def g_three_def services_three_def)

lemma Functions_three:
  "Functions (fxServices g_three) ''alpha'' = Some fn_alpha"
  "Functions (fxServices g_three) ''beta'' = Some fn_beta"
  "Functions (fxServices g_three) ''gamma'' = Some fn_gamma"
  by (simp_all add: g_three_def services_three_def)

lemma readFiles_alpha:
  "fst (readFiles x_ok (EnvironmentFile fn_alpha)) = Inr [''K'' \<mapsto> ''b'']"
  "fst (readFiles x_push_fails (EnvironmentFile fn_alpha)) = Inr [''K'' \<mapsto> ''b'']"
  "fst (readFiles x_remote_fails (EnvironmentFile fn_alpha)) = Inr [''K'' \<mapsto> ''b'']"
  by (simp_all add: readFiles_def x_ok_def x_push_fails_def x_remote_fails_def fn_alpha_def)

lemma deployable_three:
  "deployable x_ok g_three ''beta''"
  "deployable x_ok g_three ''alpha''"
  "deployable x_push_fails g_three ''beta''"
  "deployable x_remote_fails g_three ''beta''"
     apply (simp_all add: deployable_def Functions_three readFiles_alpha)
     apply (simp_all add: push_error_def remote_error_def readFiles_def deployConfig_def
        x_ok_def x_push_fails_def x_remote_fails_def g_three_def g_flags_def
        fn_beta_def fn_alpha_def)
  done

text \<open>
  The three ways, in the concrete configuration: the push of \<open>alpha\<close> fails after
  \<open>beta\<close>; an environment file of \<open>gamma\<close> is missing after \<open>beta\<close> and
  \<open>alpha\<close>; \<open>grpc.Deploy\<close> rejects \<open>alpha\<close> after \<open>beta\<close>.
\<close>

theorem first_failure_aborts_run_witness:
  "push_error x_push_fails g_three fn_alpha = Some (Error ''exit status 1'')
   \<and> fst (runDeploy x_push_fails g_three ([''beta''] @ ''alpha'' # [''gamma'']))
       = Some (Error ''exit status 1'')
   \<and> pushes (snd (runDeploy x_push_fails g_three ([''beta''] @ ''alpha'' # [''gamma''])))
       = [[''docker'', ''push'', ''reg/beta''], [''docker'', ''push'', ''reg/alpha'']]
   \<and> map FunctionName
        (requests (snd (runDeploy x_push_fails g_three ([''beta''] @ ''alpha'' # [''gamma'']))))
       = [''beta'']
   \<and> push_error x_ok g_three fn_gamma = None
   \<and> fst (readFiles x_ok (EnvironmentFile fn_gamma)) = Inl (Error ''no such file'')
   \<and> fst (runDeploy x_ok g_three ([''beta'', ''alpha''] @ ''gamma'' # []))
       = Some (Error ''no such file'')
   \<and> map FunctionName
        (requests (snd (runDeploy x_ok g_three ([''beta'', ''alpha''] @ ''gamma'' # []))))
       = [''beta'', ''alpha'']
   \<and> push_error x_remote_fails g_three fn_alpha = None
   \<and> remote_error x_remote_fails g_three ''alpha'' fn_alpha [''K'' \<mapsto> ''b'']
       = Some (Error ''rpc error'')
   \<and> fst (runDeploy x_remote_fails g_three ([''beta''] @ ''alpha'' # [''gamma'']))
       = Some (Error ''rpc error'')
   \<and> length (pushes (snd (runDeploy x_remote_fails g_three
                              ([''beta''] @ ''alpha'' # [''gamma''])))) = 2
   \<and> map FunctionName
        (requests (snd (runDeploy x_remote_fails g_three
                          ([''beta''] @ ''alpha'' # [''gamma'']))))
       = [''beta'', ''alpha'']"
proof -
  have pre1: "\<forall>k\<in>set [''beta'']. deployable x_push_fails g_three k"
    and pre2: "\<forall>k\<in>set [''beta'', ''alpha'']. deployable x_ok g_three k"
    and pre3: "\<forall>k\<in>set [''beta'']. deployable x_remote_fails g_three k"
    by (simp_all add: deployable_three)
  have a1: "push_error x_push_fails g_three fn_alpha = Some (Error ''exit status 1'')"
    by (simp add: push_error_def x_push_fails_def x_ok_def g_three_def g_flags_def
          fn_alpha_def)
  have b1: "push_error x_ok g_three fn_gamma = None"
    by (simp add: push_error_def x_ok_def g_three_def g_flags_def)
  have b2: "fst (readFiles x_ok (EnvironmentFile fn_gamma)) = Inl (Error ''no such file'')"
    by (simp add: readFiles_def x_ok_def fn_gamma_def)
  have c1: "push_error x_remote_fails g_three fn_alpha = None"
    by (simp add: push_error_def x_remote_fails_def x_ok_def g_three_def g_flags_def)
  have c2: "remote_error x_remote_fails g_three ''alpha'' fn_alpha [''K'' \<mapsto> ''b'']
       = Some (Error ''rpc error'')"
    by (simp add: remote_error_def deployConfig_def x_remote_fails_def)
  note t1 = first_failure_aborts_run
              [OF range_order_three(1) pre1 Functions_three(1) disjI1, OF a1]
  note t2 = first_failure_aborts_run
              [OF range_order_three(2) pre2 Functions_three(3) disjI2,
               OF disjI1, OF conjI, OF b1 b2]
  note t3 = first_failure_aborts_run
              [OF range_order_three(1) pre3 Functions_three(1) disjI2,
               OF disjI2, OF conjI, OF c1 conjI, OF readFiles_alpha(3) c2]
  have r1: "fst (runDeploy x_push_fails g_three ([''beta''] @ ''alpha'' # [''gamma'']))
       = Some (Error ''exit status 1'')"
    using t1 [THEN conjunct1] by simp
  have r2: "pushes (snd (runDeploy x_push_fails g_three ([''beta''] @ ''alpha'' # [''gamma''])))
       = [[''docker'', ''push'', ''reg/beta''], [''docker'', ''push'', ''reg/alpha'']]"
    using t1 [THEN conjunct2, THEN conjunct1]
    by (simp add: push_argv_def Functions_three fn_alpha_def fn_beta_def)
  have r3: "map FunctionName
        (requests (snd (runDeploy x_push_fails g_three ([''beta''] @ ''alpha'' # [''gamma'']))))
       = [''beta'']"
    using t1 [THEN conjunct2, THEN conjunct2, THEN conjunct2, THEN conjunct2] a1 by simp
  have r4: "fst (runDeploy x_ok g_three ([''beta'', ''alpha''] @ ''gamma'' # []))
       = Some (Error ''no such file'')"
    using t2 [THEN conjunct1] by simp
  have r5: "map FunctionName
        (requests (snd (runDeploy x_ok g_three ([''beta'', ''alpha''] @ ''gamma'' # []))))
       = [''beta'', ''alpha'']"
    using t2 [THEN conjunct2, THEN conjunct2, THEN conjunct2, THEN conjunct2] b2 by simp
  have r6: "fst (runDeploy x_remote_fails g_three ([''beta''] @ ''alpha'' # [''gamma'']))
       = Some (Error ''rpc error'')"
    using t3 [THEN conjunct1] by simp
  have r7: "length (pushes (snd (runDeploy x_remote_fails g_three
                              ([''beta''] @ ''alpha'' # [''gamma''])))) = 2"
    using t3 [THEN conjunct2, THEN conjunct2, THEN conjunct1] by simp
  have r8: "map FunctionName
        (requests (snd (runDeploy x_remote_fails g_three
                          ([''beta''] @ ''alpha'' # [''gamma'']))))
       = [''beta'', ''alpha'']"
    using t3 [THEN conjunct2, THEN conjunct2, THEN conjunct2, THEN conjunct2] c1
      readFiles_alpha(3)
    by simp
  show ?thesis
    by (intro conjI; fact)
qed

lemma log_args_append: "log_args fmt (evs @ evs') = log_args fmt evs @ log_args fmt evs'"
  by (induction fmt evs rule: log_args.induct) simp_all

lemma readFiles_loop_log_args: "log_args fmt (snd (readFiles_loop x envs files)) = []"
  by (induction files arbitrary: envs) (simp_all add: case_prod_beta split: sum.splits)

lemma deploy_log_args: "log_args fmt (snd (deploy x gw function upd rep minr maxr tok)) = []"
  by (simp add: deploy_def readFiles_def Let_def case_prod_beta log_args_append
        readFiles_loop_log_args
      split: sum.splits)

lemma fmt_distinct:
  "fmt_deploying \<noteq> fmt_pushing" "fmt_url \<noteq> fmt_pushing"
  "fmt_pushing \<noteq> fmt_url" "fmt_deploying \<noteq> fmt_url"
  by (simp_all add: fmt_pushing_def fmt_deploying_def fmt_url_def)

lemma runDeploy_iter_pushing_line:
  "log_args fmt_pushing (snd (runDeploy_iter x g name function))
     = [[name, Function.Image function, RegistryURL function]]"
  by (simp add: runDeploy_iter_def Let_def case_prod_beta log_args_append deploy_log_args
        fmt_distinct
      split: option.splits)

lemma runDeploy_iter_url_line:
  "log_args fmt_url (snd (runDeploy_iter x g name function))
     = (if fst (runDeploy_iter x g name function) = None then [[gateway g, name]] else [])"
  by (simp add: runDeploy_iter_def Let_def case_prod_beta log_args_append deploy_log_args
        fmt_distinct
      split: option.splits)

lemma runDeploy_loop_projection:
  assumes app: "\<And>a b. P (a @ b) = P a @ P b" and nil: "P [] = []"
      and ok: "\<And>k. k \<in> set ks \<Longrightarrow> iter_error x g k = None \<Longrightarrow> P (iter_events x g k) = [h k]"
      and any: "\<And>k. k \<in> set ks \<Longrightarrow>
                  P (iter_events x g k) = [] \<or> P (iter_events x g k) = [h k]"
  shows "P (snd (runDeploy_loop x g ks))
           = map h (take (length (P (snd (runDeploy_loop x g ks)))) ks)"
  using ok any
proof (induction ks)
  case Nil
  show ?case by (simp add: nil)
next
  case (Cons k ks)
  show ?case
  proof (cases "iter_error x g k")
    case (Some err)
    have "P (iter_events x g k) = [] \<or> P (iter_events x g k) = [h k]"
      using Cons.prems(2) by simp
    then show ?thesis
      using Some by (simp only: runDeploy_loop_Cons) auto
  next
    case None
    then have one: "P (iter_events x g k) = [h k]"
      using Cons.prems(1) by simp
    have ih: "P (snd (runDeploy_loop x g ks))
           = map h (take (length (P (snd (runDeploy_loop x g ks)))) ks)"
      using Cons.IH Cons.prems by simp
    have "P (snd (runDeploy_loop x g (k # ks))) = h k # P (snd (runDeploy_loop x g ks))"
      using None one by (simp only: runDeploy_loop_Cons) (simp add: app)
    then show ?thesis
      using ih by simp
  qed
qed

lemma runDeploy_projection:
  assumes ro: "range_order (Functions (fxServices g)) order"
      and app: "\<And>a b. P (a @ b) = P a @ P b" and nil: "P [] = []"
      and ok: "\<And>k. k \<in> set order \<Longrightarrow> iter_error x g k = None
                 \<Longrightarrow> P (iter_events x g k) = [h k]"
      and any: "\<And>k. k \<in> set order \<Longrightarrow>
                  P (iter_events x g k) = [] \<or> P (iter_events x g k) = [h k]"
  shows "P (snd (runDeploy x g order))
           = map h (take (length (P (snd (runDeploy x g order)))) order)"
proof (cases "card (dom (Functions (fxServices g))) \<le> 0")
  case True
  then show ?thesis by (simp add: runDeploy_def nil)
next
  case False
  then have "runDeploy x g order = runDeploy_loop x g order"
    by (simp add: runDeploy_def)
  then show ?thesis
    using runDeploy_loop_projection [of P order x g h, OF app nil ok any] by simp
qed

lemma runDeploy_projection_all:
  assumes ro: "range_order (Functions (fxServices g)) order" and ne: "order \<noteq> []"
      and all: "\<forall>k\<in>set order. deployable x g k"
      and app: "\<And>a b. P (a @ b) = P a @ P b" and nil: "P [] = []"
      and ok: "\<And>k. k \<in> set order \<Longrightarrow> iter_error x g k = None
                 \<Longrightarrow> P (iter_events x g k) = [h k]"
  shows "P (snd (runDeploy x g order)) = map h order"
proof -
  have e: "\<forall>k\<in>set order. iter_error x g k = None"
    using all by (simp add: deployable_iter_error)
  have "card (dom (Functions (fxServices g))) = length order"
    using ro by (rule range_order_card)
  then have run: "runDeploy x g order = (None, concat (map (iter_events x g) order))"
    using ne runDeploy_loop_all_ok [OF e] by (simp add: runDeploy_def)
  have "set ks \<subseteq> set order \<Longrightarrow> P (concat (map (iter_events x g) ks)) = map h ks" for ks
  proof (induction ks)
    case Nil
    show ?case by (simp add: nil)
  next
    case (Cons k ks)
    then show ?case using ok [of k] e by (simp add: app)
  qed
  then show ?thesis by (simp add: run)
qed

lemma iter_events_pushing_line:
  assumes "k \<in> dom (Functions (fxServices g))"
  shows "log_args fmt_pushing (iter_events x g k) = [pushing_args g k]"
proof -
  from assms obtain fn where "Functions (fxServices g) k = Some fn"
    by auto
  then show ?thesis
    by (simp add: iter_events_def pushing_args_def runDeploy_iter_pushing_line)
qed

lemma iter_events_url_line:
  assumes "k \<in> dom (Functions (fxServices g))"
  shows "log_args fmt_url (iter_events x g k)
           = (if iter_error x g k = None then [[gateway g, k]] else [])"
proof -
  from assms obtain fn where "Functions (fxServices g) k = Some fn"
    by auto
  then show ?thesis
    by (simp add: iter_events_def iter_error_def runDeploy_iter_url_line)
qed

lemma iter_events_request_name:
  assumes "k \<in> dom (Functions (fxServices g))" and "iter_error x g k = None"
  shows "map FunctionName (requests (iter_events x g k)) = [k]"
proof -
  from assms(1) obtain fn where f: "Functions (fxServices g) k = Some fn"
    by auto
  with assms(2) have "fst (runDeploy_iter x g k fn) = None"
    by (simp add: iter_error_def)
  then show ?thesis
    using runDeploy_iter_ok [of x g k fn] f by (simp add: iter_events_def)
qed

lemma pushing_args_with_names: "pushing_args (with_names nm g) k = pushing_args g k"
  by (cases "Functions (fxServices g) k")
     (simp_all add: pushing_args_def Functions_with_names)

text \<open>
  C10. In a run over the keys in the order \<open>range\<close> yields them, the progress lines
  before the pushes carry, in that order, each key with the image and registry of the
  function stored under it; the requests carry the keys, in that order; the URL lines
  carry the gateway and the keys, in that order; and when every function is deployable
  there is one of each per key. The run and these lines are the same whatever the
  \<open>Name\<close> fields of the stored records hold. Within one iteration, the result does
  not depend on the \<open>Name\<close> of the value it is given, its first event is the
  progress line with the key, every request it submits carries the key, and when it
  succeeds it submits one request and its last event is the URL line with the key.
\<close>

theorem map_key_is_function_name:
  assumes "range_order (Functions (fxServices g)) order"
  shows "log_args fmt_pushing (snd (runDeploy x g order))
           = map (pushing_args g)
               (take (length (log_args fmt_pushing (snd (runDeploy x g order)))) order)
       \<and> map FunctionName (requests (snd (runDeploy x g order)))
           = take (length (requests (snd (runDeploy x g order)))) order
       \<and> log_args fmt_url (snd (runDeploy x g order))
           = map (\<lambda>k. [gateway g, k])
               (take (length (log_args fmt_url (snd (runDeploy x g order)))) order)
       \<and> (order \<noteq> [] \<and> (\<forall>k\<in>set order. deployable x g k)
            \<longrightarrow> log_args fmt_pushing (snd (runDeploy x g order))
                  = map (pushing_args g) order
                \<and> map FunctionName (requests (snd (runDeploy x g order))) = order
                \<and> log_args fmt_url (snd (runDeploy x g order))
                  = map (\<lambda>k. [gateway g, k]) order)
       \<and> runDeploy x (with_names nm g) order = runDeploy x g order
       \<and> pushing_args (with_names nm g) = pushing_args g
       \<and> runDeploy_iter x g name (function\<lparr>Name := other\<rparr>) = runDeploy_iter x g name function
       \<and> hd (snd (runDeploy_iter x g name function))
           = Log_Info fmt_pushing [name, Function.Image function, RegistryURL function]
       \<and> map FunctionName (requests (snd (runDeploy_iter x g name function)))
           = (if requests (snd (runDeploy_iter x g name function)) = [] then [] else [name])
       \<and> (fst (runDeploy_iter x g name function) = None
            \<longrightarrow> map FunctionName (requests (snd (runDeploy_iter x g name function))) = [name]
                \<and> last (snd (runDeploy_iter x g name function))
                    = Log_Info fmt_url [gateway g, name])"
proof -
  let ?evs = "snd (runDeploy x g order)"
  let ?N = "\<lambda>evs. map FunctionName (requests evs)"
  have dom: "\<And>k. k \<in> set order \<Longrightarrow> k \<in> dom (Functions (fxServices g))"
    using assms by (simp add: range_order_def)
  have c1: "log_args fmt_pushing ?evs
           = map (pushing_args g) (take (length (log_args fmt_pushing ?evs)) order)"
    using assms
    by (rule runDeploy_projection)
       (simp_all add: log_args_append iter_events_pushing_line dom)
  have "?N ?evs = map (\<lambda>k. k) (take (length (?N ?evs)) order)"
    using assms
  proof (rule runDeploy_projection)
    show "?N (a @ b) = ?N a @ ?N b" for a b :: "('a, 'b) event list"
      by (simp add: requests_append)
    show "?N [] = []" by simp
    show "?N (iter_events x g k) = [k]" if "k \<in> set order" "iter_error x g k = None" for k
      using that dom by (simp add: iter_events_request_name)
    show "?N (iter_events x g k) = [] \<or> ?N (iter_events x g k) = [k]" if "k \<in> set order" for k
      using iter_events_names [of x g k] by (simp split: if_splits)
  qed
  then have c2: "?N ?evs = take (length (requests ?evs)) order"
    by simp
  have c3: "log_args fmt_url ?evs
           = map (\<lambda>k. [gateway g, k]) (take (length (log_args fmt_url ?evs)) order)"
    using assms
    by (rule runDeploy_projection)
       (simp_all add: log_args_append iter_events_url_line dom)
  have c4: "log_args fmt_pushing ?evs = map (pushing_args g) order
                \<and> ?N ?evs = order
                \<and> log_args fmt_url ?evs = map (\<lambda>k. [gateway g, k]) order"
    if ne: "order \<noteq> []" and all: "\<forall>k\<in>set order. deployable x g k"
  proof -
    have "log_args fmt_pushing ?evs = map (pushing_args g) order"
      using assms ne all
      by (rule runDeploy_projection_all)
         (simp_all add: log_args_append iter_events_pushing_line dom)
    moreover have "?N ?evs = map (\<lambda>k. k) order"
      using assms ne all
      by (rule runDeploy_projection_all)
         (simp_all add: requests_append iter_events_request_name dom)
    moreover have "log_args fmt_url ?evs = map (\<lambda>k. [gateway g, k]) order"
      using assms ne all
      by (rule runDeploy_projection_all)
         (simp_all add: log_args_append iter_events_url_line dom)
    ultimately show ?thesis by simp
  qed
  have c5: "runDeploy x (with_names nm g) order = runDeploy x g order"
    by (simp add: runDeploy_def dom_with_names runDeploy_loop_with_names)
  have c6: "pushing_args (with_names nm g) = pushing_args g"
    by (rule ext) (rule pushing_args_with_names)
  have c7: "runDeploy_iter x g name (function\<lparr>Name := other\<rparr>)
      = runDeploy_iter x g name function"
    by (rule runDeploy_iter_rename)
  have c8: "hd (snd (runDeploy_iter x g name function))
       = Log_Info fmt_pushing [name, Function.Image function, RegistryURL function]"
    by (rule runDeploy_iter_hd)
  have c9: "map FunctionName (requests (snd (runDeploy_iter x g name function)))
       = (if requests (snd (runDeploy_iter x g name function)) = [] then [] else [name])"
    by (rule runDeploy_iter_names)
  have c10: "fst (runDeploy_iter x g name function) = None
        \<longrightarrow> map FunctionName (requests (snd (runDeploy_iter x g name function))) = [name]
            \<and> last (snd (runDeploy_iter x g name function))
                = Log_Info fmt_url [gateway g, name]"
    using runDeploy_iter_ok [of x g name "function"] by blast
  from c1 c2 c3 c4 c5 c6 c7 c8 c9 c10 show ?thesis by blast
qed

theorem map_key_is_function_name_witness:
  "Name fn_alpha = ''stale''
   \<and> range_order (Functions (fxServices g_two)) [''beta'', ''alpha'']
   \<and> deployable x_ok g_two ''beta''
   \<and> deployable x_ok g_two ''alpha''
   \<and> log_args fmt_pushing (snd (runDeploy x_ok g_two [''beta'', ''alpha'']))
       = [[''beta'', ''reg/beta'', ''reg''], [''alpha'', ''reg/alpha'', ''reg'']]
   \<and> map FunctionName (requests (snd (runDeploy x_ok g_two [''beta'', ''alpha''])))
       = [''beta'', ''alpha'']
   \<and> log_args fmt_url (snd (runDeploy x_ok g_two [''beta'', ''alpha'']))
       = [[''10.0.0.180:31113'', ''beta''], [''10.0.0.180:31113'', ''alpha'']]
   \<and> fst (runDeploy_iter x_ok g_two ''alpha'' fn_alpha) = None
   \<and> last (snd (runDeploy_iter x_ok g_two ''alpha'' fn_alpha))
       = Log_Info fmt_url [''10.0.0.180:31113'', ''alpha'']"
proof -
  have d: "Name fn_alpha = ''stale''"
    by (simp add: fn_alpha_def)
  have ro: "range_order (Functions (fxServices g_two)) [''beta'', ''alpha'']"
    by (auto simp: range_order_def g_two_def services_two_def)
  have fa: "Functions (fxServices g_two) ''alpha'' = Some fn_alpha"
    and fb: "Functions (fxServices g_two) ''beta'' = Some fn_beta"
    by (simp_all add: g_two_def services_two_def)
  have db: "deployable x_ok g_two ''beta''"
    by (simp add: deployable_def fb)
       (simp add: push_error_def remote_error_def readFiles_def x_ok_def g_two_def
          g_flags_def fn_beta_def)
  have da: "deployable x_ok g_two ''alpha''"
    by (simp add: deployable_def fa readFiles_alpha)
       (simp add: push_error_def remote_error_def x_ok_def g_two_def g_flags_def)
  have ne: "[''beta'', ''alpha''] \<noteq> ([] :: string list)"
    by simp
  have all: "\<forall>k\<in>set [''beta'', ''alpha'']. deployable x_ok g_two k"
    using da db by simp
  have gw: "gateway g_two = ''10.0.0.180:31113''"
    by (simp add: g_two_def)
  note t = map_key_is_function_name [OF ro]
  note t4 = t [THEN conjunct2, THEN conjunct2, THEN conjunct2, THEN conjunct1, rule_format,
               OF conjI, OF ne all]
  have p: "log_args fmt_pushing (snd (runDeploy x_ok g_two [''beta'', ''alpha'']))
       = [[''beta'', ''reg/beta'', ''reg''], [''alpha'', ''reg/alpha'', ''reg'']]"
    using t4 [THEN conjunct1]
    by (simp add: pushing_args_def fa fb fn_alpha_def fn_beta_def)
  have n: "map FunctionName (requests (snd (runDeploy x_ok g_two [''beta'', ''alpha''])))
       = [''beta'', ''alpha'']"
    using t4 [THEN conjunct2, THEN conjunct1] .
  have u: "log_args fmt_url (snd (runDeploy x_ok g_two [''beta'', ''alpha'']))
       = [[''10.0.0.180:31113'', ''beta''], [''10.0.0.180:31113'', ''alpha'']]"
    using t4 [THEN conjunct2, THEN conjunct2] by (simp add: gw)
  have h: "fst (runDeploy_iter x_ok g_two ''alpha'' fn_alpha) = None"
    using da by (simp add: deployable_def fa runDeploy_iter_fst split: sum.splits)
  have l: "last (snd (runDeploy_iter x_ok g_two ''alpha'' fn_alpha))
       = Log_Info fmt_url [''10.0.0.180:31113'', ''alpha'']"
    using t [THEN conjunct2, THEN conjunct2, THEN conjunct2, THEN conjunct2, THEN conjunct2,
             THEN conjunct2, THEN conjunct2, THEN conjunct2, THEN conjunct2,
             rule_format, OF h]
    by (simp add: gw)
  show ?thesis
    by (intro conjI; fact)
qed

lemma runDeploy_loop_prefix:
  assumes "set ks \<subseteq> dom (Functions (fxServices g))"
  shows "take (length (requests (snd (runDeploy_loop x g ks)))) ks
           = map FunctionName (requests (snd (runDeploy_loop x g ks)))"
  using assms
proof (induction ks)
  case Nil
  show ?case by simp
next
  case (Cons k ks)
  from Cons.prems obtain fn where f: "Functions (fxServices g) k = Some fn"
    by auto
  show ?case
  proof (cases "iter_error x g k")
    case (Some err)
    have "length (map FunctionName (requests (iter_events x g k)))
            = (if requests (iter_events x g k) = [] then 0 else 1)"
      by (subst iter_events_names) simp
    then have "length (requests (iter_events x g k))
            = (if requests (iter_events x g k) = [] then 0 else 1)"
      by simp
    then show ?thesis
      using Some iter_events_names [of x g k]
      by (simp only: runDeploy_loop_Cons) (simp split: if_splits)
  next
    case None
    then have "map FunctionName (requests (iter_events x g k)) = [k]"
      using iter_events_names_ok [of "[k]" g x] f by (simp add: domI)
    moreover from this have "length (requests (iter_events x g k)) = 1"
      by (metis length_map length_Cons list.size(3) One_nat_def)
    ultimately show ?thesis
      using None Cons by (simp only: runDeploy_loop_Cons) (simp add: requests_append)
  qed
qed

text \<open>
  C5, as the code has it. For an order in which \<open>range\<close> can yield the keys of
  \<open>fxServices.Functions\<close>, the functions for which a request is submitted are an
  initial segment of that order, in that order, and when every iteration succeeds the
  events of the run are the events of the iterations, one after the other in that
  order, with one request and one push per key.
\<close>

theorem processed_in_range_order:
  assumes "range_order (Functions (fxServices g)) order"
  shows "take (length (requests (snd (runDeploy x g order)))) order
           = map FunctionName (requests (snd (runDeploy x g order)))
       \<and> (order \<noteq> [] \<and> (\<forall>k\<in>set order. iter_error x g k = None)
          \<longrightarrow> runDeploy x g order = (None, concat (map (iter_events x g) order))
              \<and> map FunctionName (requests (snd (runDeploy x g order))) = order
              \<and> length (pushes (snd (runDeploy x g order))) = length order)"
proof -
  let ?m = "Functions (fxServices g)"
  have card: "card (dom ?m) = length order"
    using assms by (rule range_order_card)
  have dom: "set order = dom ?m"
    using assms by (simp add: range_order_def)
  have "take (length (requests (snd (runDeploy x g order)))) order
           = map FunctionName (requests (snd (runDeploy x g order)))"
  proof (cases "order = []")
    case True
    then show ?thesis using card by (simp add: runDeploy_def)
  next
    case False
    then show ?thesis
      using card runDeploy_loop_prefix [of order g x] dom by (simp add: runDeploy_def)
  qed
  moreover have "runDeploy x g order = (None, concat (map (iter_events x g) order))
              \<and> map FunctionName (requests (snd (runDeploy x g order))) = order
              \<and> length (pushes (snd (runDeploy x g order))) = length order"
    if ne: "order \<noteq> []" and ok: "\<forall>k\<in>set order. iter_error x g k = None"
  proof -
    have run: "runDeploy x g order = (None, concat (map (iter_events x g) order))"
      using card ne runDeploy_loop_all_ok [OF ok] by (simp add: runDeploy_def)
    have "\<forall>k\<in>set order. k \<in> dom ?m \<and> iter_error x g k = None"
      using ok dom by auto
    then have "map FunctionName (requests (concat (map (iter_events x g) order))) = order"
      by (rule iter_events_names_ok)
    moreover have "length (pushes (concat (map (iter_events x g) order))) = length order"
      using dom by (intro iter_events_pushes) simp
    ultimately show ?thesis by (simp add: run)
  qed
  ultimately show ?thesis by blast
qed

theorem processed_in_range_order_witness:
  "range_order (Functions (fxServices g_two)) [''beta'', ''alpha'']
   \<and> [''beta'', ''alpha''] \<noteq> []
   \<and> iter_error x_ok g_two ''beta'' = None
   \<and> iter_error x_ok g_two ''alpha'' = None
   \<and> fst (runDeploy x_ok g_two [''beta'', ''alpha'']) = None
   \<and> map FunctionName (requests (snd (runDeploy x_ok g_two [''beta'', ''alpha''])))
       = [''beta'', ''alpha'']"
proof -
  have h1: "range_order (Functions (fxServices g_two)) [''beta'', ''alpha'']"
    by (auto simp: range_order_def g_two_def services_two_def)
  have h2: "\<forall>k\<in>set [''beta'', ''alpha'']. iter_error x_ok g_two k = None"
    by (simp add: iter_error_def runDeploy_iter_def deploy_def readFiles_def
          x_ok_def g_two_def g_flags_def services_two_def fn_beta_def fn_alpha_def)
  have h3: "[''beta'', ''alpha''] \<noteq> ([] :: string list)"
    by simp
  note t = processed_in_range_order [OF h1, of x_ok, THEN conjunct2, rule_format, OF conjI, OF h3 h2]
  have a: "fst (runDeploy x_ok g_two [''beta'', ''alpha'']) = None"
    using t [THEN conjunct1] by simp
  have b: "map FunctionName (requests (snd (runDeploy x_ok g_two [''beta'', ''alpha''])))
       = [''beta'', ''alpha'']"
    using t [THEN conjunct2, THEN conjunct1] .
  have h2b: "iter_error x_ok g_two ''beta'' = None"
    and h2a: "iter_error x_ok g_two ''alpha'' = None"
    using h2 by simp_all
  show ?thesis
    by (intro conjI; fact)
qed

text \<open>
  C5 as stated fails: the mapping with the keys \<open>alpha\<close> and \<open>beta\<close> can be
  ranged over in either order, and the two orders give two different runs.
\<close>

theorem insertion_order_counterexample:
  "range_order (Functions (fxServices g_two)) [''alpha'', ''beta'']
   \<and> range_order (Functions (fxServices g_two)) [''beta'', ''alpha'']
   \<and> map FunctionName (requests (snd (runDeploy x_ok g_two [''alpha'', ''beta''])))
       = [''alpha'', ''beta'']
   \<and> map FunctionName (requests (snd (runDeploy x_ok g_two [''beta'', ''alpha''])))
       = [''beta'', ''alpha'']
   \<and> pushes (snd (runDeploy x_ok g_two [''alpha'', ''beta'']))
       \<noteq> pushes (snd (runDeploy x_ok g_two [''beta'', ''alpha'']))"
proof -
  have h1: "range_order (Functions (fxServices g_two)) [''alpha'', ''beta'']"
    by (auto simp: range_order_def g_two_def services_two_def)
  have h2: "range_order (Functions (fxServices g_two)) [''beta'', ''alpha'']"
    by (auto simp: range_order_def g_two_def services_two_def)
  have c: "card (dom (Functions (fxServices g_two))) = 2"
    using range_order_card [OF h1] by simp
  have a: "fst (runDeploy_iter x_ok g_two ''alpha'' fn_alpha) = None"
    by (simp add: runDeploy_iter_def deploy_def readFiles_def
          x_ok_def g_two_def g_flags_def fn_alpha_def)
  have b: "fst (runDeploy_iter x_ok g_two ''beta'' fn_beta) = None"
    by (simp add: runDeploy_iter_def deploy_def readFiles_def
          x_ok_def g_two_def g_flags_def fn_beta_def)
  have fa: "Functions (fxServices g_two) ''alpha'' = Some fn_alpha"
    by (simp add: g_two_def services_two_def)
  have fb: "Functions (fxServices g_two) ''beta'' = Some fn_beta"
    by (simp add: g_two_def services_two_def)
  have na: "map FunctionName (requests (snd (runDeploy_iter x_ok g_two ''alpha'' fn_alpha)))
      = [''alpha'']"
    using a runDeploy_iter_ok [of x_ok g_two "''alpha''" fn_alpha] by simp
  have nb: "map FunctionName (requests (snd (runDeploy_iter x_ok g_two ''beta'' fn_beta)))
      = [''beta'']"
    using b runDeploy_iter_ok [of x_ok g_two "''beta''" fn_beta] by simp
  have pa: "pushes (snd (runDeploy_iter x_ok g_two ''alpha'' fn_alpha))
      = [[''docker'', ''push'', ''reg/alpha'']]"
    by (simp add: runDeploy_iter_pushes fn_alpha_def)
  have pb: "pushes (snd (runDeploy_iter x_ok g_two ''beta'' fn_beta))
      = [[''docker'', ''push'', ''reg/beta'']]"
    by (simp add: runDeploy_iter_pushes fn_beta_def)
  have r1: "snd (runDeploy x_ok g_two [''alpha'', ''beta''])
      = snd (runDeploy_iter x_ok g_two ''alpha'' fn_alpha)
        @ snd (runDeploy_iter x_ok g_two ''beta'' fn_beta)"
    using c fa fb a b by (simp add: runDeploy_def case_prod_beta)
  have r2: "snd (runDeploy x_ok g_two [''beta'', ''alpha''])
      = snd (runDeploy_iter x_ok g_two ''beta'' fn_beta)
        @ snd (runDeploy_iter x_ok g_two ''alpha'' fn_alpha)"
    using c fa fb a b by (simp add: runDeploy_def case_prod_beta)
  show ?thesis
    using h1 h2 na nb pa pb by (simp add: r1 r2 requests_append pushes_append)
qed

text \<open>
  C9. When \<open>fxServices.Functions\<close> has no entry, \<open>runDeploy\<close> returns an error (the
  one with the empty message) and performs no event: no push, no file read, no request.
\<close>

theorem no_functions_rejected:
  assumes "dom (Functions (fxServices g)) = {}"
  shows "runDeploy x g order = (Some (errors_New ''''), [])"
  using assms by (simp add: runDeploy_def)

theorem no_functions_rejected_witness:
  "dom (Functions (fxServices g_flags)) = {}
   \<and> runDeploy x_ok g_flags [] = (Some (errors_New ''''), [])"
proof -
  have h: "dom (Functions (fxServices g_flags)) = {}"
    by (simp add: g_flags_def)
  show ?thesis
    using h no_functions_rejected [OF h, of x_ok "[]"] by blast
qed

subsection \<open>The command\<close>

text \<open>
  C2. When the flags \<open>update\<close> and \<open>replace\<close> are both set, \<open>preRunDeploy\<close>
  returns its first error, and executing the command returns that error with no event:
  nothing is pushed and nothing is submitted.
\<close>

theorem update_and_replace_rejected:
  assumes "update g \<and> replace g"
  shows "preRunDeploy x g = Inl (errors_New msg_update_replace)
         \<and> deployCmd_execute x g order = (Some (errors_New msg_update_replace), [])"
  using assms by (simp add: preRunDeploy_def deployCmd_execute_def)

theorem update_and_replace_rejected_witness:
  "update (g_flags\<lparr>replace := True\<rparr>) \<and> replace (g_flags\<lparr>replace := True\<rparr>)
   \<and> deployCmd_execute x_ok (g_flags\<lparr>replace := True\<rparr>) [''alpha'', ''beta'']
       = (Some (errors_New msg_update_replace), [])"
proof -
  have h: "update (g_flags\<lparr>replace := True\<rparr>) \<and> replace (g_flags\<lparr>replace := True\<rparr>)"
    by (simp add: g_flags_def)
  show ?thesis
    using h update_and_replace_rejected [OF h, of x_ok "[''alpha'', ''beta'']"] by blast
qed

lemma preRunDeploy_g_flags:
  "preRunDeploy x_ok g_flags = Inr g_two" "preRunDeploy x_push_fails g_flags = Inr g_two"
  by (simp_all add: preRunDeploy_def x_push_fails_def x_ok_def g_flags_def g_two_def
        services_two_def)

lemma runDeploy_push_fails:
  "runDeploy x_push_fails g_two [''alpha'', ''beta'']
     = (Some (Error ''exit status 1''),
        [Log_Info fmt_pushing [''alpha'', ''reg/alpha'', ''reg''],
         Exec_Command ''./'' [''docker'', ''push'', ''reg/alpha'']])"
proof -
  have c: "card (dom (Functions (fxServices g_two))) = 2"
    by (simp add: g_two_def services_two_def)
  have fa: "Functions (fxServices g_two) ''alpha'' = Some fn_alpha"
    by (simp add: g_two_def services_two_def)
  have it: "runDeploy_iter x_push_fails g_two ''alpha'' fn_alpha
     = (Some (Error ''exit status 1''),
        [Log_Info fmt_pushing [''alpha'', ''reg/alpha'', ''reg''],
         Exec_Command ''./'' [''docker'', ''push'', ''reg/alpha'']])"
    by (simp add: runDeploy_iter_def x_push_fails_def x_ok_def g_two_def g_flags_def
          fn_alpha_def)
  show ?thesis
    using c fa it by (simp add: runDeploy_def)
qed

text \<open>
  C4, as the code has it. When \<open>preRunDeploy\<close> succeeds and \<open>runDeploy\<close> fails,
  the command prints the message of the error after the events of the run and returns
  no error, so the exit status is the one the entry point chooses for a command that
  returned none: the same as for a run in which every function is deployed. Only an
  error of \<open>preRunDeploy\<close> is returned to the entry point, with nothing performed.
\<close>

theorem runDeploy_error_printed_not_returned:
  assumes "preRunDeploy x g = Inr g'" and "runDeploy x g' order = (Some err, evs)"
  shows "deployCmd_execute x g order = (None, evs @ [Println (err_Error err)])
       \<and> exit_status exit_of x g order = exit_of None
       \<and> (preRunDeploy x2 g2 = Inr g2' \<and> fst (runDeploy x2 g2' order2) = None
            \<longrightarrow> deployCmd_execute x2 g2 order2 = (None, snd (runDeploy x2 g2' order2))
                \<and> exit_status exit_of x2 g2 order2 = exit_status exit_of x g order)
       \<and> (preRunDeploy x1 g1 = Inl err1
            \<longrightarrow> deployCmd_execute x1 g1 order1 = (Some err1, [])
                \<and> exit_status exit_of x1 g1 order1 = exit_of (Some err1))"
proof -
  have a: "deployCmd_execute x g order = (None, evs @ [Println (err_Error err)])"
    using assms by (simp add: deployCmd_execute_def deployCmd_Run_def)
  then have b: "exit_status exit_of x g order = exit_of None"
    by (simp add: exit_status_def)
  have c: "deployCmd_execute x2 g2 order2 = (None, snd (runDeploy x2 g2' order2))
                \<and> exit_status exit_of x2 g2 order2 = exit_status exit_of x g order"
    if "preRunDeploy x2 g2 = Inr g2'" and "fst (runDeploy x2 g2' order2) = None"
    using that b
    by (cases "runDeploy x2 g2' order2")
       (simp add: deployCmd_execute_def deployCmd_Run_def exit_status_def)
  have d: "deployCmd_execute x1 g1 order1 = (Some err1, [])
                \<and> exit_status exit_of x1 g1 order1 = exit_of (Some err1)"
    if "preRunDeploy x1 g1 = Inl err1"
    using that by (simp add: deployCmd_execute_def exit_status_def)
  from a b c d show ?thesis by blast
qed

theorem runDeploy_error_printed_not_returned_witness:
  "preRunDeploy x_push_fails g_flags = Inr g_two
   \<and> fst (runDeploy x_push_fails g_two [''alpha'', ''beta'']) = Some (Error ''exit status 1'')
   \<and> preRunDeploy x_ok g_flags = Inr g_two
   \<and> fst (runDeploy x_ok g_two [''alpha'', ''beta'']) = None
   \<and> preRunDeploy x_ok (g_flags\<lparr>replace := True\<rparr>) = Inl (errors_New msg_update_replace)
   \<and> exit_status exit_on_error x_push_fails g_flags [''alpha'', ''beta''] = 0
   \<and> exit_status exit_on_error x_ok g_flags [''alpha'', ''beta'']
       = exit_status exit_on_error x_push_fails g_flags [''alpha'', ''beta'']
   \<and> exit_status exit_on_error x_ok (g_flags\<lparr>replace := True\<rparr>) [''alpha'', ''beta''] = 1"
proof -
  have h1: "preRunDeploy x_push_fails g_flags = Inr g_two"
    by (rule preRunDeploy_g_flags)
  have h2: "runDeploy x_push_fails g_two [''alpha'', ''beta'']
     = (Some (Error ''exit status 1''),
        [Log_Info fmt_pushing [''alpha'', ''reg/alpha'', ''reg''],
         Exec_Command ''./'' [''docker'', ''push'', ''reg/alpha'']])"
    by (rule runDeploy_push_fails)
  have h3: "preRunDeploy x_ok g_flags = Inr g_two"
    by (rule preRunDeploy_g_flags)
  have r: "range_order (Functions (fxServices g_two)) [''alpha'', ''beta'']"
    by (auto simp: range_order_def g_two_def services_two_def)
  have ok: "\<forall>k\<in>set [''alpha'', ''beta'']. iter_error x_ok g_two k = None"
    by (simp add: iter_error_def runDeploy_iter_def deploy_def readFiles_def
          x_ok_def g_two_def g_flags_def services_two_def fn_beta_def fn_alpha_def)
  have "runDeploy_loop x_ok g_two [''alpha'', ''beta'']
          = (None, concat (map (iter_events x_ok g_two) [''alpha'', ''beta'']))"
    using ok by (rule runDeploy_loop_all_ok)
  then have h4: "fst (runDeploy x_ok g_two [''alpha'', ''beta'']) = None"
    using range_order_card [OF r] by (simp add: runDeploy_def)
  have h5: "preRunDeploy x_ok (g_flags\<lparr>replace := True\<rparr>) = Inl (errors_New msg_update_replace)"
    by (simp add: preRunDeploy_def g_flags_def)
  note t = runDeploy_error_printed_not_returned
             [OF h1 h2, of exit_on_error x_ok g_flags g_two "[''alpha'', ''beta'']"
                x_ok "g_flags\<lparr>replace := True\<rparr>" "errors_New msg_update_replace"
                "[''alpha'', ''beta'']"]
  have a: "exit_status exit_on_error x_push_fails g_flags [''alpha'', ''beta''] = 0"
    using t [THEN conjunct2, THEN conjunct1] by (simp add: exit_on_error_def)
  have b: "exit_status exit_on_error x_ok g_flags [''alpha'', ''beta'']
       = exit_status exit_on_error x_push_fails g_flags [''alpha'', ''beta'']"
    using t [THEN conjunct2, THEN conjunct2, THEN conjunct1] h3 h4 by blast
  have c: "exit_status exit_on_error x_ok (g_flags\<lparr>replace := True\<rparr>) [''alpha'', ''beta''] = 1"
    using t [THEN conjunct2, THEN conjunct2, THEN conjunct2] h5
    by (simp add: exit_on_error_def)
  have h2': "fst (runDeploy x_push_fails g_two [''alpha'', ''beta'']) = Some (Error ''exit status 1'')"
    using h2 by simp
  show ?thesis
    by (intro conjI; fact)
qed

text \<open>
  C4 as stated fails: the push of \<open>alpha\<close> fails, the message is printed, the
  command returns no error, and the entry point that exits with status 1 on an error
  exits with status 0.
\<close>

theorem nonzero_exit_counterexample:
  "preRunDeploy x_push_fails g_flags = Inr g_two
   \<and> fst (runDeploy x_push_fails g_two [''alpha'', ''beta'']) = Some (Error ''exit status 1'')
   \<and> requests (snd (runDeploy x_push_fails g_two [''alpha'', ''beta''])) = []
   \<and> deployCmd_execute x_push_fails g_flags [''alpha'', ''beta'']
       = (None, [Log_Info fmt_pushing [''alpha'', ''reg/alpha'', ''reg''],
                 Exec_Command ''./'' [''docker'', ''push'', ''reg/alpha''],
                 Println ''exit status 1''])
   \<and> exit_status exit_on_error x_push_fails g_flags [''alpha'', ''beta''] = 0"
  by (simp add: preRunDeploy_g_flags runDeploy_push_fails deployCmd_execute_def
        deployCmd_Run_def exit_status_def exit_on_error_def)

end
